theory Spec2Isabelle
  imports Main
begin

section \<open>Pop Match: the match-chain engine of \<^verbatim>\<open>App.tsx\<close>\<close>

text \<open>
  The repository holds several revisions of one React component. Two of them are
  embedded here in full: the revision with powerups, wildcard tiles and the combo meter
  (\<^verbatim>\<open>src/unnamed/part_001\<close>; its definitions keep the source's names), and the
  revision with levels only (\<^verbatim>\<open>src/src/App.tsx\<close>; the second file of
  \<^verbatim>\<open>src/unnamed/part_002\<close> has the same handlers), whose definitions carry the suffix
  \<open>_levels\<close>. The commit handlers of the two oldest revisions
  (\<^verbatim>\<open>src/unnamed/part_000\<close>, suffix \<open>_basic\<close>, and the first file of
  \<^verbatim>\<open>src/unnamed/part_002\<close>, suffix \<open>_reqs\<close>) are embedded as well.

  Conventions of the embedding.
  \<^item> A coordinate object \<^verbatim>\<open>{ r, c }\<close> is the pair \<open>(r, c)\<close> of naturals.
  \<^item> The grid \<^verbatim>\<open>(Ball | null)[][]\<close> is a list of rows of \<open>Ball option\<close>.
  \<^item> The \<^verbatim>\<open>useState\<close> cells of the component are the fields of one record; a
    handler is a function from the record to the record. The setters a handler calls
    are applied in the order in which React's batched update queue applies them (one
    pass of every updater; a setter called inside an updater is applied after the
    updates queued by the handler itself).
  \<^item> \<^verbatim>\<open>Math.random()\<close> and \<^verbatim>\<open>Date.now()\<close> are parameters: \<open>gen r c\<close> is the ball
    object the refill loop builds at row \<open>r\<close> of column \<open>c\<close>, and \<open>now\<close> is the
    rendering of the clock used in the identity of a reward tile.
  \<^item> Numbers are \<open>int\<close>.
  The presentation state (\<^verbatim>\<open>effects\<close>, \<^verbatim>\<open>shake\<close>, \<^verbatim>\<open>muted\<close>) and the audio calls
  are left out: no handler reads them back.
\<close>

subsection \<open>Data model\<close>

datatype BallColor = red | blue | yellow | green | purple | rainbow | special

datatype PowerupType = Moves | Multiplier | Bomb

record Ball =
  ballId :: string
  color :: BallColor
  powerup :: "PowerupType option"

type_synonym Pos = "nat \<times> nat"

type_synonym Grid = "Ball option list list"

datatype Phase = home | playing | won | lost | levelup

record AppState =
  level :: nat
  grid :: Grid
  selection :: "Pos list"
  isDragging :: bool
  score :: int
  moves :: int
  targets :: "BallColor \<rightharpoonup> int"
  gameState :: Phase
  multiplierTurns :: int
  combo :: int
  comboMeter :: int

definition ROWS :: nat where
  "ROWS = 8"

definition COLS :: nat where
  "COLS = 5"

definition MIN_MATCH :: nat where
  "MIN_MATCH = 3"

text \<open>
  \<^verbatim>\<open>grid[r][c]\<close>. Every coordinate a handler receives is the \<^verbatim>\<open>data-row\<close> and
  \<^verbatim>\<open>data-col\<close> of a rendered cell, so it lies inside the grid. Past the end of a row
  JavaScript reads \<^verbatim>\<open>undefined\<close>, which the handlers test for truthiness only, like
  \<^verbatim>\<open>null\<close>; the lookup gives \<open>None\<close> there. (Past the last row the source would throw;
  the theorems about the cells of the grid assume a grid of \<open>ROWS\<close> by \<open>COLS\<close> and a
  coordinate inside it.)
\<close>

definition cellAt :: "Grid \<Rightarrow> nat \<Rightarrow> nat \<Rightarrow> Ball option" where
  "cellAt g r c = (if r < length g \<and> c < length (g ! r) then g ! r ! c else None)"

text \<open>\<^verbatim>\<open>newGrid[r][c] = v\<close>, for a coordinate inside the grid.\<close>

definition setCell :: "Grid \<Rightarrow> nat \<Rightarrow> nat \<Rightarrow> Ball option \<Rightarrow> Grid" where
  "setCell g r c v = g[r := (g ! r)[c := v]]"

definition gridOK :: "Grid \<Rightarrow> bool" where
  "gridOK g = (length g = ROWS \<and> list_all (\<lambda>row. length row = COLS) g)"

definition inGrid :: "Pos \<Rightarrow> bool" where
  "inGrid p = (fst p < ROWS \<and> snd p < COLS)"

subsection \<open>Selection (part\_001)\<close>

definition isWildcard :: "BallColor \<Rightarrow> bool" where
  "isWildcard k = (k = rainbow \<or> k = special)"

text \<open>
  The loop \<^verbatim>\<open>for (const s of prev) { ... break; }\<close> of \<^verbatim>\<open>handleCellEnter\<close>, which
  \<^verbatim>\<open>handlePointerUp\<close> and \<^verbatim>\<open>getChainColor\<close> repeat: the colour of the first cell of
  the chain that is neither \<^verbatim>\<open>rainbow\<close> nor \<^verbatim>\<open>special\<close>, or \<^verbatim>\<open>null\<close>.
\<close>

fun getChainColor :: "Grid \<Rightarrow> Pos list \<Rightarrow> BallColor option" where
  "getChainColor g [] = None"
| "getChainColor g (s # ss) =
     (case cellAt g (fst s) (snd s) of
        None \<Rightarrow> getChainColor g ss
      | Some b \<Rightarrow>
          if color b \<noteq> rainbow \<and> color b \<noteq> special then Some (color b)
          else getChainColor g ss)"

definition isAdjacent :: "Pos \<Rightarrow> nat \<Rightarrow> nat \<Rightarrow> bool" where
  "isAdjacent lastp r c =
     (\<bar>int (fst lastp) - int r\<bar> \<le> 1 \<and> \<bar>int (snd lastp) - int c\<bar> \<le> 1
      \<and> \<not> (fst lastp = r \<and> snd lastp = c))"

text \<open>
  The updater that \<^verbatim>\<open>handleCellEnter\<close> passes to \<^verbatim>\<open>setSelection\<close>
  (the spec's \<^verbatim>\<open>extendSelection\<close>). \<open>last prev\<close> is \<^verbatim>\<open>prev[prev.length - 1]\<close>,
  \<open>butlast prev\<close> is \<^verbatim>\<open>prev.slice(0, -1)\<close>.
\<close>

definition extendSelection :: "Grid \<Rightarrow> Pos list \<Rightarrow> nat \<Rightarrow> nat \<Rightarrow> Pos list" where
  "extendSelection g prev r c =
     (if length prev = 0 then prev
      else if length prev > 1 \<and> prev ! (length prev - 2) = (r, c) then butlast prev
      else if (r, c) \<in> set prev then prev
      else if isAdjacent (last prev) r c then
        (case cellAt g r c of
           None \<Rightarrow> prev
         | Some ball \<Rightarrow>
             if color ball = rainbow \<or> color ball = special then prev @ [(r, c)]
             else (case getChainColor g prev of
                     None \<Rightarrow> prev @ [(r, c)]
                   | Some targetColor \<Rightarrow>
                       if color ball = targetColor then prev @ [(r, c)] else prev))
      else prev)"

definition handleCellEnter :: "AppState \<Rightarrow> nat \<Rightarrow> nat \<Rightarrow> AppState" where
  "handleCellEnter st r c =
     (if gameState st \<noteq> playing then st
      else st\<lparr>selection := extendSelection (grid st) (selection st) r c\<rparr>)"

definition handlePointerDown :: "AppState \<Rightarrow> nat \<Rightarrow> nat \<Rightarrow> AppState" where
  "handlePointerDown st r c =
     (if gameState st \<noteq> playing \<or> cellAt (grid st) r c = None then st
      else st\<lparr>isDragging := True, selection := [(r, c)]\<rparr>)"

subsection \<open>Selection (src/App.tsx)\<close>

text \<open>
  The older updater compares the entered ball with the first ball of the chain.
\<close>

definition extendSelection_levels :: "Grid \<Rightarrow> Pos list \<Rightarrow> nat \<Rightarrow> nat \<Rightarrow> Pos list" where
  "extendSelection_levels g prev r c =
     (if length prev = 0 then prev
      else if length prev > 1 \<and> prev ! (length prev - 2) = (r, c) then butlast prev
      else if (r, c) \<in> set prev then prev
      else if isAdjacent (last prev) r c then
        (case (cellAt g r c, cellAt g (fst (prev ! 0)) (snd (prev ! 0))) of
           (Some ball, Some firstBall) \<Rightarrow>
             if color ball = color firstBall then prev @ [(r, c)] else prev
         | _ \<Rightarrow> prev)
      else prev)"

definition handleCellEnter_levels :: "AppState \<Rightarrow> nat \<Rightarrow> nat \<Rightarrow> AppState" where
  "handleCellEnter_levels st r c =
     (if gameState st \<noteq> playing then st
      else st\<lparr>selection := extendSelection_levels (grid st) (selection st) r c\<rparr>)"

subsection \<open>Gravity and refill\<close>

text \<open>
  \<^verbatim>\<open>applyGravity\<close> is the same in every revision. The inner loop
  \<^verbatim>\<open>for (let r = ROWS - 1; r >= 0; r--)\<close> of column \<open>c\<close>: \<open>compactColumn c n g e\<close> runs
  the iterations \<open>r = n - 1, ..., 0\<close> from the grid \<open>g\<close> with \<^verbatim>\<open>emptySpaces = e\<close> and
  returns the grid and the counter.
\<close>

fun compactColumn :: "nat \<Rightarrow> nat \<Rightarrow> Grid \<Rightarrow> nat \<Rightarrow> Grid \<times> nat" where
  "compactColumn c 0 g emptySpaces = (g, emptySpaces)"
| "compactColumn c (Suc r) g emptySpaces =
     (if cellAt g r c = None then compactColumn c r g (emptySpaces + 1)
      else if emptySpaces > 0 then
        compactColumn c r (setCell (setCell g (r + emptySpaces) c (cellAt g r c)) r c None)
          emptySpaces
      else compactColumn c r g emptySpaces)"

text \<open>
  The object literal of the refill loop: identity and colour come from the clock and
  the random source (\<open>gen r c\<close>); a refilled ball carries no powerup.
\<close>

definition newBall :: "(nat \<Rightarrow> nat \<Rightarrow> string \<times> BallColor) \<Rightarrow> nat \<Rightarrow> nat \<Rightarrow> Ball" where
  "newBall gen r c = \<lparr>ballId = fst (gen r c), color = snd (gen r c), powerup = None\<rparr>"

text \<open>\<^verbatim>\<open>for (let r = 0; r < emptySpaces; r++) newGrid[r][c] = { ... }\<close>\<close>

definition refillColumn ::
  "(nat \<Rightarrow> nat \<Rightarrow> string \<times> BallColor) \<Rightarrow> nat \<Rightarrow> nat \<Rightarrow> Grid \<Rightarrow> Grid" where
  "refillColumn gen c emptySpaces g =
     fold (\<lambda>r g'. setCell g' r c (Some (newBall gen r c))) [0..<emptySpaces] g"

text \<open>One iteration of the outer loop \<^verbatim>\<open>for (let c = 0; c < COLS; c++)\<close>.\<close>

definition gravityColumn ::
  "(nat \<Rightarrow> nat \<Rightarrow> string \<times> BallColor) \<Rightarrow> nat \<Rightarrow> Grid \<Rightarrow> Grid" where
  "gravityColumn gen c g =
     (case compactColumn c ROWS g 0 of (g', emptySpaces) \<Rightarrow> refillColumn gen c emptySpaces g')"

definition applyGravity :: "(nat \<Rightarrow> nat \<Rightarrow> string \<times> BallColor) \<Rightarrow> Grid \<Rightarrow> Grid" where
  "applyGravity gen currentGrid = fold (gravityColumn gen) [0..<COLS] currentGrid"

text \<open>Column \<open>c\<close> of a grid, top row first.\<close>

definition column :: "Grid \<Rightarrow> nat \<Rightarrow> Ball option list" where
  "column g c = map (\<lambda>row. row ! c) g"

subsection \<open>Match resolution (part\_001)\<close>

text \<open>
  The local variables of \<^verbatim>\<open>handlePointerUp\<close>, each as a function of the state the
  handler closes over.
\<close>

definition chainColor :: "AppState \<Rightarrow> BallColor option" where
  "chainColor st = getChainColor (grid st) (selection st)"

definition hasPowerup :: "Grid \<Rightarrow> PowerupType \<Rightarrow> Pos \<Rightarrow> bool" where
  "hasPowerup g p s =
     (case cellAt g (fst s) (snd s) of None \<Rightarrow> False | Some ball \<Rightarrow> powerup ball = Some p)"

text \<open>\<^verbatim>\<open>addedMoves\<close> after the \<^verbatim>\<open>forEach\<close> over the selection.\<close>

definition collectedMoves :: "AppState \<Rightarrow> int" where
  "collectedMoves st =
     fold (\<lambda>s acc. if hasPowerup (grid st) Moves s then acc + 3 else acc) (selection st) 0"

definition activatedMultiplier :: "AppState \<Rightarrow> bool" where
  "activatedMultiplier st = list_ex (hasPowerup (grid st) Multiplier) (selection st)"

definition activatedBomb :: "AppState \<Rightarrow> bool" where
  "activatedBomb st = list_ex (hasPowerup (grid st) Bomb) (selection st)"

text \<open>The body of the two nested loops of the bomb, at the cell \<open>(r, c)\<close>.\<close>

definition bombStep :: "Grid \<Rightarrow> BallColor \<Rightarrow> Pos \<Rightarrow> Pos list \<Rightarrow> Pos list" where
  "bombStep g k p fs =
     (case cellAt g (fst p) (snd p) of
        None \<Rightarrow> fs
      | Some b \<Rightarrow> if color b = k \<and> \<not> list_ex (\<lambda>s. s = p) fs then fs @ [p] else fs)"

definition finalSelection :: "AppState \<Rightarrow> Pos list" where
  "finalSelection st =
     (case chainColor st of
        None \<Rightarrow> selection st
      | Some k \<Rightarrow>
          if activatedBomb st
          then fold (bombStep (grid st) k) (List.product [0..<ROWS] [0..<COLS]) (selection st)
          else selection st)"

definition removalCount :: "AppState \<Rightarrow> int" where
  "removalCount st = int (length (finalSelection st))"

definition isBonus :: "AppState \<Rightarrow> bool" where
  "isBonus st = (removalCount st \<ge> 5)"

definition isSuperBonus :: "AppState \<Rightarrow> bool" where
  "isSuperBonus st = (removalCount st \<ge> 10)"

definition increment :: "AppState \<Rightarrow> int" where
  "increment st = min 25 (10 + (removalCount st - 3) * 5)"

definition newValue :: "AppState \<Rightarrow> int" where
  "newValue st = comboMeter st + increment st"

text \<open>The test \<^verbatim>\<open>newValue >= 100\<close> of the combo breakout.\<close>

definition breakout :: "AppState \<Rightarrow> bool" where
  "breakout st = (newValue st \<ge> 100)"

definition addedMoves :: "AppState \<Rightarrow> int" where
  "addedMoves st = collectedMoves st + (if isSuperBonus st then 1 else 0)"

text \<open>\<^verbatim>\<open>finalSelection.forEach(({ r, c }) => { newGrid[r][c] = null; })\<close>\<close>

definition clearBalls :: "Grid \<Rightarrow> Pos list \<Rightarrow> Grid" where
  "clearBalls g fs = fold (\<lambda>s g'. setCell g' (fst s) (snd s) None) fs g"

text \<open>
  The grid after the balls are cleared and the reward tile is written at the last
  coordinate of the original selection, before gravity.
\<close>

definition rewardedGrid :: "string \<Rightarrow> AppState \<Rightarrow> Grid" where
  "rewardedGrid now st =
     (let newGrid = clearBalls (grid st) (finalSelection st);
          lastSelected = last (selection st)
      in if isSuperBonus st then
           setCell newGrid (fst lastSelected) (snd lastSelected)
             (Some \<lparr>ballId = ''rainbow-'' @ now, color = rainbow, powerup = None\<rparr>)
         else if isBonus st then
           setCell newGrid (fst lastSelected) (snd lastSelected)
             (Some \<lparr>ballId = ''special-'' @ now, color = special, powerup = None\<rparr>)
         else newGrid)"

definition baseScore :: "AppState \<Rightarrow> int" where
  "baseScore st = removalCount st * 10"

definition bonusMultiplier :: "AppState \<Rightarrow> int" where
  "bonusMultiplier st =
     (if isSuperBonus st then 4 else if isBonus st then 2 else 1)
     * (if multiplierTurns st > 0 \<or> activatedMultiplier st then 2 else 1)"

definition newMoves :: "AppState \<Rightarrow> int" where
  "newMoves st = moves st - 1 + addedMoves st"

definition hasColor :: "Grid \<Rightarrow> BallColor \<Rightarrow> Pos \<Rightarrow> bool" where
  "hasColor g k s =
     (case cellAt g (fst s) (snd s) of None \<Rightarrow> False | Some ball \<Rightarrow> color ball = k)"

definition usedRainbow :: "AppState \<Rightarrow> bool" where
  "usedRainbow st = list_ex (hasColor (grid st) rainbow) (finalSelection st)"

definition usedSpecial :: "AppState \<Rightarrow> bool" where
  "usedSpecial st = list_ex (hasColor (grid st) special) (finalSelection st)"

text \<open>
  \<^verbatim>\<open>newTargets\<close>: with a rainbow in the removal set every key of the object is
  lowered; otherwise the key of the chain colour, when the object has it.
\<close>

definition newTargets :: "AppState \<Rightarrow> (BallColor \<rightharpoonup> int)" where
  "newTargets st =
     (if usedRainbow st then
        (\<lambda>k. map_option (\<lambda>v. max 0 (v - removalCount st)) (targets st k))
      else
        (case chainColor st of
           None \<Rightarrow> targets st
         | Some k \<Rightarrow>
             (case targets st k of
                None \<Rightarrow> targets st
              | Some v \<Rightarrow>
                  (targets st)(k \<mapsto>
                    max 0 (v - removalCount st * (if usedSpecial st then 2 else 1))))))"

text \<open>\<^verbatim>\<open>Object.values(t).every(count => count === 0)\<close>\<close>

definition allZero :: "(BallColor \<rightharpoonup> int) \<Rightarrow> bool" where
  "allZero t =
     list_all (\<lambda>k. case t k of None \<Rightarrow> True | Some v \<Rightarrow> v = 0)
       [red, blue, yellow, green, purple, rainbow, special]"

definition isWon :: "AppState \<Rightarrow> bool" where
  "isWon st = allZero (newTargets st)"

text \<open>
  The branch \<^verbatim>\<open>if (firstBall) { ... }\<close>: a commit. The breakout's \<^verbatim>\<open>setScore\<close> and
  \<^verbatim>\<open>setMoves\<close> run inside the updater of the combo meter, after the handler's own
  \<^verbatim>\<open>setScore\<close> and \<^verbatim>\<open>setMoves(newMoves)\<close>.
\<close>

definition resolveMatch ::
  "(nat \<Rightarrow> nat \<Rightarrow> string \<times> BallColor) \<Rightarrow> string \<Rightarrow> AppState \<Rightarrow> AppState" where
  "resolveMatch gen now st =
     st\<lparr>combo := combo st + 1,
        comboMeter := (if breakout st then 0 else newValue st),
        grid := applyGravity gen (rewardedGrid now st),
        score := score st + baseScore st * bonusMultiplier st
                 + (if breakout st then 500 else 0),
        moves := newMoves st + (if breakout st then 2 else 0),
        multiplierTurns :=
          (if activatedMultiplier st then 3
           else if multiplierTurns st > 0 then multiplierTurns st - 1
           else multiplierTurns st),
        targets := newTargets st,
        gameState :=
          (if isWon st then levelup
           else if newMoves st \<le> 0 then lost
           else gameState st)\<rparr>"

text \<open>The condition under which a pointer release resolves a match.\<close>

definition commits :: "AppState \<Rightarrow> bool" where
  "commits st =
     (isDragging st \<and> length (selection st) \<ge> MIN_MATCH \<and> gameState st = playing
      \<and> cellAt (grid st) (fst (selection st ! 0)) (snd (selection st ! 0)) \<noteq> None)"

definition handlePointerUp ::
  "(nat \<Rightarrow> nat \<Rightarrow> string \<times> BallColor) \<Rightarrow> string \<Rightarrow> AppState \<Rightarrow> AppState" where
  "handlePointerUp gen now st =
     (if \<not> isDragging st then st
      else if length (selection st) \<ge> MIN_MATCH \<and> gameState st = playing then
        (case cellAt (grid st) (fst (selection st ! 0)) (snd (selection st ! 0)) of
           Some firstBall \<Rightarrow> (resolveMatch gen now st)\<lparr>isDragging := False, selection := []\<rparr>
         | None \<Rightarrow>
             if length (selection st) > 0 then
               st\<lparr>isDragging := False, combo := 0,
                  comboMeter := max 0 (comboMeter st - 15), selection := []\<rparr>
             else st\<lparr>isDragging := False, selection := []\<rparr>)
      else st\<lparr>isDragging := False, selection := []\<rparr>)"

subsection \<open>Levels and the other handlers (part\_001)\<close>

record LevelConfig =
  cfgMoves :: int
  cfgTargets :: "BallColor \<rightharpoonup> int"

definition LEVELS :: "LevelConfig list" where
  "LEVELS =
     [\<lparr>cfgMoves = 20, cfgTargets = [yellow \<mapsto> 10, red \<mapsto> 10]\<rparr>,
      \<lparr>cfgMoves = 18, cfgTargets = [yellow \<mapsto> 15, red \<mapsto> 10, blue \<mapsto> 5]\<rparr>,
      \<lparr>cfgMoves = 15, cfgTargets = [yellow \<mapsto> 20, red \<mapsto> 15, blue \<mapsto> 10, green \<mapsto> 5]\<rparr>,
      \<lparr>cfgMoves = 15,
       cfgTargets = [yellow \<mapsto> 25, red \<mapsto> 20, blue \<mapsto> 15, green \<mapsto> 10, purple \<mapsto> 5]\<rparr>,
      \<lparr>cfgMoves = 12,
       cfgTargets = [yellow \<mapsto> 30, red \<mapsto> 25, blue \<mapsto> 20, green \<mapsto> 15, purple \<mapsto> 10]\<rparr>]"

text \<open>
  Past the authored list the configuration is drawn at random; \<open>drawn\<close> stands for
  the configuration the random branch builds.
\<close>

definition generateLevelConfig :: "LevelConfig \<Rightarrow> nat \<Rightarrow> LevelConfig" where
  "generateLevelConfig drawn levelIndex =
     (if levelIndex < length LEVELS then LEVELS ! levelIndex else drawn)"

definition handlePointerMove :: "AppState \<Rightarrow> nat \<Rightarrow> nat \<Rightarrow> AppState" where
  "handlePointerMove st r c =
     (if \<not> isDragging st \<or> gameState st \<noteq> playing then st else handleCellEnter st r c)"

definition startGame :: "AppState \<Rightarrow> AppState" where
  "startGame st = st\<lparr>gameState := playing\<rparr>"

text \<open>\<open>fresh\<close> is the grid \<^verbatim>\<open>generateGrid(ROWS, COLS)\<close> returns.\<close>

definition startNextLevel :: "Grid \<Rightarrow> LevelConfig \<Rightarrow> AppState \<Rightarrow> AppState" where
  "startNextLevel fresh drawn st =
     (let nextLevel = level st + 1; config = generateLevelConfig drawn nextLevel
      in st\<lparr>level := nextLevel, grid := fresh, moves := cfgMoves config,
            targets := cfgTargets config, gameState := playing, selection := [],
            multiplierTurns := 0\<rparr>)"

definition resetGame :: "Grid \<Rightarrow> LevelConfig \<Rightarrow> AppState \<Rightarrow> AppState" where
  "resetGame fresh drawn st =
     (let config = generateLevelConfig drawn 0
      in st\<lparr>level := 0, grid := fresh, score := 0, moves := cfgMoves config,
            targets := cfgTargets config, gameState := playing, selection := [],
            multiplierTurns := 0\<rparr>)"

definition goToHome :: "Grid \<Rightarrow> LevelConfig \<Rightarrow> AppState \<Rightarrow> AppState" where
  "goToHome fresh drawn st =
     (let config = generateLevelConfig drawn 0
      in st\<lparr>gameState := home, level := 0, score := 0, moves := cfgMoves config,
            targets := cfgTargets config, grid := fresh, multiplierTurns := 0,
            combo := 0, comboMeter := 0\<rparr>)"

text \<open>The events of the component and the handler each one runs.\<close>

datatype Event =
    PointerDown nat nat
  | PointerMove nat nat
  | PointerUp "nat \<Rightarrow> nat \<Rightarrow> string \<times> BallColor" string
  | StartGame
  | StartNextLevel Grid LevelConfig
  | ResetGame Grid LevelConfig
  | GoToHome Grid LevelConfig

fun step :: "AppState \<Rightarrow> Event \<Rightarrow> AppState" where
  "step st (PointerDown r c) = handlePointerDown st r c"
| "step st (PointerMove r c) = handlePointerMove st r c"
| "step st (PointerUp gen now) = handlePointerUp gen now st"
| "step st StartGame = startGame st"
| "step st (StartNextLevel fresh drawn) = startNextLevel fresh drawn st"
| "step st (ResetGame fresh drawn) = resetGame fresh drawn st"
| "step st (GoToHome fresh drawn) = goToHome fresh drawn st"

text \<open>The state of the first render.\<close>

definition initialState :: "Grid \<Rightarrow> AppState" where
  "initialState fresh =
     \<lparr>level = 0, grid = fresh, selection = [], isDragging = False, score = 0,
      moves = cfgMoves (LEVELS ! 0), targets = cfgTargets (LEVELS ! 0), gameState = home,
      multiplierTurns = 0, combo = 0, comboMeter = 0\<rparr>"

subsection \<open>Match resolution of the older revisions\<close>

text \<open>
  \<^verbatim>\<open>if (newTargets[color] !== undefined) newTargets[color] = Math.max(0, newTargets[color] - n)\<close>
\<close>

definition lowerTarget :: "(BallColor \<rightharpoonup> int) \<Rightarrow> BallColor \<Rightarrow> int \<Rightarrow> (BallColor \<rightharpoonup> int)" where
  "lowerTarget t k n = (case t k of None \<Rightarrow> t | Some v \<Rightarrow> t(k \<mapsto> max 0 (v - n)))"

text \<open>\<^verbatim>\<open>src/src/App.tsx\<close>: levels, a bonus above five balls, no powerups.\<close>

definition isBonus_levels :: "AppState \<Rightarrow> bool" where
  "isBonus_levels st = (length (selection st) > 5)"

definition resolveMatch_levels ::
  "(nat \<Rightarrow> nat \<Rightarrow> string \<times> BallColor) \<Rightarrow> Ball \<Rightarrow> AppState \<Rightarrow> AppState" where
  "resolveMatch_levels gen firstBall st =
     (let n = int (length (selection st));
          newMoves' = moves st - 1;
          newTargets' = lowerTarget (targets st) (color firstBall) n
      in st\<lparr>grid := applyGravity gen (clearBalls (grid st) (selection st)),
            score := score st + n * 10 * (if isBonus_levels st then 2 else 1),
            moves := newMoves',
            targets := newTargets',
            gameState :=
              (if allZero newTargets' then
                 (if level st < length LEVELS - 1 then levelup else won)
               else if newMoves' \<le> 0 then lost
               else gameState st)\<rparr>)"

definition handlePointerUp_levels ::
  "(nat \<Rightarrow> nat \<Rightarrow> string \<times> BallColor) \<Rightarrow> AppState \<Rightarrow> AppState" where
  "handlePointerUp_levels gen st =
     (if \<not> isDragging st then st
      else if length (selection st) \<ge> MIN_MATCH \<and> gameState st = playing then
        (case cellAt (grid st) (fst (selection st ! 0)) (snd (selection st ! 0)) of
           Some firstBall \<Rightarrow>
             (resolveMatch_levels gen firstBall st)\<lparr>isDragging := False, selection := []\<rparr>
         | None \<Rightarrow> st\<lparr>isDragging := False, selection := []\<rparr>)
      else st\<lparr>isDragging := False, selection := []\<rparr>)"

text \<open>\<^verbatim>\<open>src/unnamed/part_000\<close>: one level, no bonus.\<close>

definition resolveMatch_basic ::
  "(nat \<Rightarrow> nat \<Rightarrow> string \<times> BallColor) \<Rightarrow> Ball \<Rightarrow> AppState \<Rightarrow> AppState" where
  "resolveMatch_basic gen firstBall st =
     (let n = int (length (selection st));
          newMoves' = moves st - 1;
          newTargets' = lowerTarget (targets st) (color firstBall) n
      in st\<lparr>grid := applyGravity gen (clearBalls (grid st) (selection st)),
            score := score st + n * 10,
            moves := newMoves',
            targets := newTargets',
            gameState :=
              (if allZero newTargets' then won
               else if newMoves' \<le> 0 then lost
               else gameState st)\<rparr>)"

definition handlePointerUp_basic ::
  "(nat \<Rightarrow> nat \<Rightarrow> string \<times> BallColor) \<Rightarrow> AppState \<Rightarrow> AppState" where
  "handlePointerUp_basic gen st =
     (if \<not> isDragging st then st
      else if length (selection st) \<ge> MIN_MATCH \<and> gameState st = playing then
        (case cellAt (grid st) (fst (selection st ! 0)) (snd (selection st ! 0)) of
           Some firstBall \<Rightarrow>
             (resolveMatch_basic gen firstBall st)\<lparr>isDragging := False, selection := []\<rparr>
         | None \<Rightarrow> st\<lparr>isDragging := False, selection := []\<rparr>)
      else st\<lparr>isDragging := False, selection := []\<rparr>)"

text \<open>
  The first file of \<^verbatim>\<open>src/unnamed/part_002\<close>: a minimum length per colour, no moves
  and no phase.
\<close>

definition COLOR_REQS :: "BallColor \<rightharpoonup> nat" where
  "COLOR_REQS = [red \<mapsto> 4, blue \<mapsto> 2, yellow \<mapsto> 7, green \<mapsto> 3, purple \<mapsto> 5]"

definition handlePointerUp_reqs ::
  "(nat \<Rightarrow> nat \<Rightarrow> string \<times> BallColor) \<Rightarrow> AppState \<Rightarrow> AppState" where
  "handlePointerUp_reqs gen st =
     (if \<not> isDragging st then st
      else if length (selection st) > 0 then
        (case cellAt (grid st) (fst (selection st ! 0)) (snd (selection st ! 0)) of
           None \<Rightarrow> st\<lparr>isDragging := False, selection := []\<rparr>
         | Some firstBall \<Rightarrow>
             (case COLOR_REQS (color firstBall) of
                None \<Rightarrow> st\<lparr>isDragging := False, selection := []\<rparr>
              | Some req \<Rightarrow>
                  if length (selection st) \<ge> req then
                    st\<lparr>isDragging := False,
                       grid := applyGravity gen (clearBalls (grid st) (selection st)),
                       score := score st + int (length (selection st)) * 10,
                       targets :=
                         lowerTarget (targets st) (color firstBall)
                           (int (length (selection st))),
                       selection := []\<rparr>
                  else st\<lparr>isDragging := False, selection := []\<rparr>))
      else st\<lparr>isDragging := False, selection := []\<rparr>)"

subsection \<open>Properties of a chain, in the words of the specification\<close>

text \<open>King-move adjacency: row and column differ by at most one, the cells differ.\<close>

definition kingAdjacent :: "Pos \<Rightarrow> Pos \<Rightarrow> bool" where
  "kingAdjacent p q =
     (fst p \<le> fst q + 1 \<and> fst q \<le> fst p + 1 \<and> snd p \<le> snd q + 1 \<and> snd q \<le> snd p + 1
      \<and> p \<noteq> q)"

fun kingChain :: "Pos list \<Rightarrow> bool" where
  "kingChain [] = True"
| "kingChain [p] = True"
| "kingChain (p # q # ps) = (kingAdjacent p q \<and> kingChain (q # ps))"

definition occupied :: "Grid \<Rightarrow> Pos list \<Rightarrow> bool" where
  "occupied g sel = list_all (\<lambda>p. cellAt g (fst p) (snd p) \<noteq> None) sel"

text \<open>The colours of the balls of a chain, and those that are not wildcards.\<close>

definition ballColors :: "Grid \<Rightarrow> Pos list \<Rightarrow> BallColor list" where
  "ballColors g sel = map color (List.map_filter (\<lambda>p. cellAt g (fst p) (snd p)) sel)"

definition nonWildColors :: "Grid \<Rightarrow> Pos list \<Rightarrow> BallColor list" where
  "nonWildColors g sel = filter (\<lambda>k. \<not> isWildcard k) (ballColors g sel)"

text \<open>At most one colour occurs among the non-wildcard balls (among all balls).\<close>

definition oneColor :: "Grid \<Rightarrow> Pos list \<Rightarrow> bool" where
  "oneColor g sel = (length (remdups (nonWildColors g sel)) \<le> 1)"

definition sameColor :: "Grid \<Rightarrow> Pos list \<Rightarrow> bool" where
  "sameColor g sel = (length (remdups (ballColors g sel)) \<le> 1)"

definition chainOK :: "Grid \<Rightarrow> Pos list \<Rightarrow> bool" where
  "chainOK g sel = (kingChain sel \<and> distinct sel \<and> occupied g sel \<and> oneColor g sel)"

definition chainOK_levels :: "Grid \<Rightarrow> Pos list \<Rightarrow> bool" where
  "chainOK_levels g sel = (kingChain sel \<and> distinct sel \<and> occupied g sel \<and> sameColor g sel)"

text \<open>
  What one cell-enter event may do to a non-empty chain: leave it, append the entered
  cell, or drop the last element of a chain of two or more; the result is not empty.
\<close>

definition stepOK :: "Pos list \<Rightarrow> Pos \<Rightarrow> Pos list \<Rightarrow> bool" where
  "stepOK prev p sel' =
     (1 \<le> length sel' \<and>
      (sel' = prev \<or> sel' = prev @ [p] \<or> (2 \<le> length prev \<and> sel' = butlast prev)))"

subsection \<open>The scenario of the specification\<close>

text \<open>
  An 8 by 5 grid, all yellow but for one red ball at \<open>(0, 0)\<close>, in the first level.
\<close>

definition yellowBall :: Ball where
  "yellowBall = \<lparr>ballId = ''y'', color = yellow, powerup = None\<rparr>"

definition redBall :: Ball where
  "redBall = \<lparr>ballId = ''r'', color = red, powerup = None\<rparr>"

definition yellowRow :: "Ball option list" where
  "yellowRow =
     [Some yellowBall, Some yellowBall, Some yellowBall, Some yellowBall, Some yellowBall]"

definition scenarioGrid :: Grid where
  "scenarioGrid =
     [[Some redBall, Some yellowBall, Some yellowBall, Some yellowBall, Some yellowBall],
      yellowRow, yellowRow, yellowRow, yellowRow, yellowRow, yellowRow, yellowRow]"

definition scenarioState :: AppState where
  "scenarioState =
     \<lparr>level = 0, grid = scenarioGrid, selection = [], isDragging = False, score = 0,
      moves = 20, targets = [yellow \<mapsto> 10, red \<mapsto> 10], gameState = playing,
      multiplierTurns = 0, combo = 0, comboMeter = 0\<rparr>"

definition scenarioChain :: "Pos list" where
  "scenarioChain = [(0, 1), (0, 2), (0, 3), (0, 4), (1, 4)]"

text \<open>The state while the chain of the scenario is being dragged.\<close>

definition dragging :: "Pos list \<Rightarrow> AppState" where
  "dragging sel = scenarioState\<lparr>isDragging := True, selection := sel\<rparr>"

subsection \<open>Properties of gravity, in the words of the specification\<close>

text \<open>The empty cells of a column, and its occupied cells from top to bottom.\<close>

definition emptyCount :: "Grid \<Rightarrow> nat \<Rightarrow> nat" where
  "emptyCount g c = length (filter (\<lambda>x. x = None) (column g c))"

definition occupiedCells :: "Grid \<Rightarrow> nat \<Rightarrow> Ball option list" where
  "occupiedCells g c = filter (\<lambda>x. x \<noteq> None) (column g c)"

definition noEmpty :: "Grid \<Rightarrow> bool" where
  "noEmpty g = list_all (list_all (\<lambda>x. x \<noteq> None)) g"

text \<open>Every row reaches column \<open>c\<close>.\<close>

definition wide :: "Grid \<Rightarrow> nat \<Rightarrow> bool" where
  "wide g c = list_all (\<lambda>n. c < n) (map length g)"

text \<open>A refill source, and the scenario's grid with the chain removed.\<close>

definition sampleGen :: "nat \<Rightarrow> nat \<Rightarrow> string \<times> BallColor" where
  "sampleGen r c = (''new'', blue)"

definition holedGrid :: Grid where
  "holedGrid = clearBalls scenarioGrid scenarioChain"

subsection \<open>Properties of a commit, in the words of the specification\<close>

text \<open>The combo meter lies in \<open>[0, 100)\<close>.\<close>

definition meterOK :: "int \<Rightarrow> bool" where
  "meterOK m = (0 \<le> m \<and> m < 100)"

text \<open>
  A chain with no powerup and no wildcard: every cell holds a ball of the colour \<open>k\<close>
  that carries no powerup (\<open>k\<close> is then required not to be a wildcard colour).
\<close>

definition plainChain :: "Grid \<Rightarrow> Pos list \<Rightarrow> BallColor \<Rightarrow> bool" where
  "plainChain g sel k =
     list_all (\<lambda>s. case cellAt g (fst s) (snd s) of
                       None \<Rightarrow> False
                     | Some b \<Rightarrow> color b = k \<and> powerup b = None) sel"

text \<open>
  The phase \<^verbatim>\<open>src/App.tsx\<close> enters on a win: \<^verbatim>\<open>levelup\<close> while
  \<^verbatim>\<open>level < LEVELS.length - 1\<close>, else \<^verbatim>\<open>won\<close>.
\<close>

definition winState_levels :: "AppState \<Rightarrow> Phase" where
  "winState_levels st = (if level st < 4 then levelup else won)"

text \<open>
  One amount \<open>d \<ge> 0\<close> such that every target is either kept or lowered from \<open>v\<close> to
  \<open>max 0 (v - d)\<close>.
\<close>

definition neverRises :: "(BallColor \<rightharpoonup> int) \<Rightarrow> (BallColor \<rightharpoonup> int) \<Rightarrow> bool" where
  "neverRises t t' =
     (\<exists>d\<ge>0. \<forall>k. t' k = t k \<or> (\<exists>v. t k = Some v \<and> t' k = Some (max 0 (v - d))))"

subsection \<open>States of the scenario\<close>

text \<open>The scenario with the combo meter at 80, and with a score multiplier running.\<close>

definition nearBreakout :: AppState where
  "nearBreakout = (dragging scenarioChain)\<lparr>comboMeter := 80\<rparr>"

definition buffed :: AppState where
  "buffed = (dragging scenarioChain)\<lparr>multiplierTurns := 1\<rparr>"

text \<open>A chain of ten yellow balls through rows 1 and 2.\<close>

definition tenChain :: "Pos list" where
  "tenChain = [(1, 0), (1, 1), (1, 2), (1, 3), (1, 4), (2, 4), (2, 3), (2, 2), (2, 1), (2, 0)]"

text \<open>A chain of two cells, released with a streak of 3 and the meter at 40.\<close>

definition shortDrag :: AppState where
  "shortDrag = (dragging [(0, 1), (0, 2)])\<lparr>combo := 3, comboMeter := 40\<rparr>"

text \<open>The chain of ten on a grid whose cell \<open>(1, 0)\<close> holds a rainbow tile.\<close>

definition rainbowGrid :: Grid where
  "rainbowGrid =
     setCell scenarioGrid 1 0 (Some \<lparr>ballId = ''rb'', color = rainbow, powerup = None\<rparr>)"

definition rainbowDrag :: AppState where
  "rainbowDrag = (dragging tenChain)\<lparr>grid := rainbowGrid\<rparr>"

text \<open>The last move of a level: targets left, and the target met by the chain.\<close>

definition lastMove :: AppState where
  "lastMove = (dragging scenarioChain)\<lparr>moves := 1\<rparr>"

definition lastMoveWin :: AppState where
  "lastMoveWin = (dragging scenarioChain)\<lparr>moves := 1, targets := [yellow \<mapsto> 5]\<rparr>"

section \<open>Verified properties\<close>

subsection \<open>Chains built by the selection handlers\<close>

lemma isAdjacent_king: "isAdjacent p r c = kingAdjacent p (r, c)"
  by (cases p) (auto simp: isAdjacent_def kingAdjacent_def)

lemma kingChain_snoc:
  "kingChain (ps @ [q]) = (kingChain ps \<and> (ps = [] \<or> kingAdjacent (last ps) q))"
  by (induction ps rule: kingChain.induct) auto

lemma kingChain_butlast: "kingChain ps \<Longrightarrow> kingChain (butlast ps)"
  by (induction ps rule: kingChain.induct) auto

lemma occupied_butlast: "occupied g ps \<Longrightarrow> occupied g (butlast ps)"
  by (auto simp: occupied_def list_all_iff dest: in_set_butlastD)

lemma occupied_snoc:
  "occupied g (ps @ [q]) = (occupied g ps \<and> cellAt g (fst q) (snd q) \<noteq> None)"
  by (auto simp: occupied_def)

lemma ballColors_Nil: "ballColors g [] = []"
  by (simp add: ballColors_def map_filter_simps)

lemma ballColors_Cons:
  "ballColors g (p # ps) =
     (case cellAt g (fst p) (snd p) of
        None \<Rightarrow> ballColors g ps
      | Some b \<Rightarrow> color b # ballColors g ps)"
  by (simp add: ballColors_def map_filter_simps split: option.splits)

lemma ballColors_append: "ballColors g (ps @ qs) = ballColors g ps @ ballColors g qs"
  by (induction ps) (auto simp: ballColors_Nil ballColors_Cons split: option.splits)

lemma nonWildColors_append:
  "nonWildColors g (ps @ qs) = nonWildColors g ps @ nonWildColors g qs"
  by (simp add: nonWildColors_def ballColors_append)

lemma nonWildColors_single:
  "nonWildColors g [p] =
     (case cellAt g (fst p) (snd p) of
        None \<Rightarrow> []
      | Some b \<Rightarrow> if isWildcard (color b) then [] else [color b])"
  by (simp add: nonWildColors_def ballColors_Cons ballColors_Nil split: option.splits)

lemma getChainColor_nonWild:
  "getChainColor g sel = (case nonWildColors g sel of [] \<Rightarrow> None | k # ks \<Rightarrow> Some k)"
  by (induction sel)
    (auto simp: nonWildColors_def ballColors_Nil ballColors_Cons isWildcard_def
      split: option.splits)

lemma remdups_le1: "(length (remdups xs) \<le> 1) = (\<forall>k\<in>set xs. \<forall>k'\<in>set xs. k = k')"
proof -
  have "length (remdups xs) = card (set xs)"
    by (simp add: length_remdups_card_conv)
  moreover have "(card (set xs) \<le> 1) = (\<forall>k\<in>set xs. \<forall>k'\<in>set xs. k = k')"
    by (metis List.finite_set card_le_Suc0_iff_eq One_nat_def)
  ultimately show ?thesis by simp
qed

lemma oneColor_iff:
  "oneColor g sel = (\<forall>k\<in>set (nonWildColors g sel). \<forall>k'\<in>set (nonWildColors g sel). k = k')"
  unfolding oneColor_def by (rule remdups_le1)

lemma sameColor_iff:
  "sameColor g sel = (\<forall>k\<in>set (ballColors g sel). \<forall>k'\<in>set (ballColors g sel). k = k')"
  unfolding sameColor_def by (rule remdups_le1)

lemma oneColor_butlast: "oneColor g ps \<Longrightarrow> oneColor g (butlast ps)"
proof (cases "ps = []")
  case True
  then show "oneColor g ps \<Longrightarrow> oneColor g (butlast ps)" by simp
next
  case False
  assume a: "oneColor g ps"
  have "ps = butlast ps @ [last ps]" using False by simp
  then have "nonWildColors g ps = nonWildColors g (butlast ps) @ nonWildColors g [last ps]"
    by (metis nonWildColors_append)
  with a show "oneColor g (butlast ps)" by (auto simp: oneColor_iff)
qed

lemma sameColor_butlast: "sameColor g ps \<Longrightarrow> sameColor g (butlast ps)"
proof (cases "ps = []")
  case True
  then show "sameColor g ps \<Longrightarrow> sameColor g (butlast ps)" by simp
next
  case False
  assume a: "sameColor g ps"
  have "ps = butlast ps @ [last ps]" using False by simp
  then have "ballColors g ps = ballColors g (butlast ps) @ ballColors g [last ps]"
    by (metis ballColors_append)
  with a show "sameColor g (butlast ps)" by (auto simp: sameColor_iff)
qed

lemma oneColor_snoc_wild:
  "oneColor g ps \<Longrightarrow> cellAt g r c = Some b \<Longrightarrow> isWildcard (color b)
     \<Longrightarrow> oneColor g (ps @ [(r, c)])"
  by (simp add: oneColor_iff nonWildColors_append nonWildColors_single)

lemma oneColor_snoc_first:
  "getChainColor g ps = None \<Longrightarrow> cellAt g r c = Some b \<Longrightarrow> oneColor g (ps @ [(r, c)])"
  by (auto simp: oneColor_iff nonWildColors_append nonWildColors_single getChainColor_nonWild
      split: list.splits if_splits)

lemma oneColor_snoc_same:
  "oneColor g ps \<Longrightarrow> getChainColor g ps = Some (color b) \<Longrightarrow> cellAt g r c = Some b
     \<Longrightarrow> oneColor g (ps @ [(r, c)])"
  by (auto simp: oneColor_iff nonWildColors_append nonWildColors_single getChainColor_nonWild
      split: list.splits if_splits)

lemma chainOK_butlast: "chainOK g ps \<Longrightarrow> chainOK g (butlast ps)"
  by (simp add: chainOK_def kingChain_butlast distinct_butlast occupied_butlast
      oneColor_butlast)

lemma chainOK_snoc:
  assumes "chainOK g prev" "prev \<noteq> []" "(r, c) \<notin> set prev" "isAdjacent (last prev) r c"
    and "cellAt g r c = Some b"
    and "isWildcard (color b) \<or> getChainColor g prev = None
         \<or> getChainColor g prev = Some (color b)"
  shows "chainOK g (prev @ [(r, c)])"
proof -
  have "oneColor g (prev @ [(r, c)])"
    using assms(1,5,6) oneColor_snoc_wild oneColor_snoc_first oneColor_snoc_same
    unfolding chainOK_def by blast
  with assms show ?thesis
    by (simp add: chainOK_def kingChain_snoc occupied_snoc isAdjacent_king)
qed

lemma chainOK_extend: "chainOK g prev \<Longrightarrow> chainOK g (extendSelection g prev r c)"
  unfolding extendSelection_def
  by (auto simp: chainOK_butlast isWildcard_def intro!: chainOK_snoc split: option.splits)

lemma first_color_in:
  "prev \<noteq> [] \<Longrightarrow> cellAt g (fst (prev ! 0)) (snd (prev ! 0)) = Some b0
     \<Longrightarrow> color b0 \<in> set (ballColors g prev)"
  by (cases prev) (auto simp: ballColors_Cons)

lemma sameColor_snoc:
  assumes "sameColor g prev" "prev \<noteq> []"
    and "cellAt g (fst (prev ! 0)) (snd (prev ! 0)) = Some b0" "cellAt g r c = Some b"
    and "color b = color b0"
  shows "sameColor g (prev @ [(r, c)])"
  using assms first_color_in[OF assms(2,3)]
  by (auto simp: sameColor_iff ballColors_append ballColors_Cons ballColors_Nil)

lemma chainOK_levels_extend:
  "chainOK_levels g prev \<Longrightarrow> chainOK_levels g (extendSelection_levels g prev r c)"
  unfolding extendSelection_levels_def chainOK_levels_def
  by (auto simp: kingChain_butlast distinct_butlast occupied_butlast sameColor_butlast
      kingChain_snoc occupied_snoc isAdjacent_king
      intro: sameColor_snoc split: option.splits)

lemma foldl_enter_ok:
  "chainOK (grid st) (selection st)
     \<Longrightarrow> chainOK (grid st)
           (selection (foldl (\<lambda>s p. handleCellEnter s (fst p) (snd p)) st evs))"
proof (induction evs arbitrary: st)
  case Nil
  then show ?case by simp
next
  case (Cons e evs)
  let ?st1 = "handleCellEnter st (fst e) (snd e)"
  have g: "grid ?st1 = grid st" by (simp add: handleCellEnter_def)
  have "chainOK (grid ?st1) (selection ?st1)"
    using Cons.prems by (simp add: handleCellEnter_def chainOK_extend)
  from Cons.IH[OF this] show ?case by (simp add: g)
qed

lemma foldl_enter_levels_ok:
  "chainOK_levels (grid st) (selection st)
     \<Longrightarrow> chainOK_levels (grid st)
           (selection (foldl (\<lambda>s p. handleCellEnter_levels s (fst p) (snd p)) st evs))"
proof (induction evs arbitrary: st)
  case Nil
  then show ?case by simp
next
  case (Cons e evs)
  let ?st1 = "handleCellEnter_levels st (fst e) (snd e)"
  have g: "grid ?st1 = grid st" by (simp add: handleCellEnter_levels_def)
  have "chainOK_levels (grid ?st1) (selection ?st1)"
    using Cons.prems by (simp add: handleCellEnter_levels_def chainOK_levels_extend)
  from Cons.IH[OF this] show ?case by (simp add: g)
qed

lemma chainOK_single: "cellAt g r c \<noteq> None \<Longrightarrow> chainOK g [(r, c)]"
  by (auto simp: chainOK_def occupied_def oneColor_iff nonWildColors_single split: if_splits)

lemma chainOK_levels_single: "cellAt g r c \<noteq> None \<Longrightarrow> chainOK_levels g [(r, c)]"
  by (auto simp: chainOK_levels_def occupied_def sameColor_iff ballColors_Cons ballColors_Nil)

text \<open>
  Claim C5. A chain started by \<^verbatim>\<open>handlePointerDown\<close> on an occupied cell while playing
  and extended by any sequence of cell-enter events is, after every event, a path of
  king moves without a repeated cell, through occupied cells only, whose balls that
  are neither \<^verbatim>\<open>rainbow\<close> nor \<^verbatim>\<open>special\<close> have one colour. This holds for the
  handler with wildcards (part\_001) and for the handler of \<^verbatim>\<open>src/App.tsx\<close>, where
  all balls of the chain have one colour.
\<close>

theorem chain_invariant:
  assumes "gameState st = playing" and "cellAt (grid st) r c \<noteq> None"
  shows "chainOK (grid st)
           (selection (foldl (\<lambda>s p. handleCellEnter s (fst p) (snd p))
              (handlePointerDown st r c) evs))
       \<and> chainOK_levels (grid st)
           (selection (foldl (\<lambda>s p. handleCellEnter_levels s (fst p) (snd p))
              (handlePointerDown st r c) evs))"
proof -
  let ?s0 = "handlePointerDown st r c"
  have g: "grid ?s0 = grid st" and sel: "selection ?s0 = [(r, c)]"
    using assms by (auto simp: handlePointerDown_def)
  have "chainOK (grid ?s0) (selection ?s0)" "chainOK_levels (grid ?s0) (selection ?s0)"
    using assms(2) by (simp_all add: g sel chainOK_single chainOK_levels_single)
  from foldl_enter_ok[OF this(1)] foldl_enter_levels_ok[OF this(2)]
  show ?thesis by (simp add: g)
qed

theorem chain_invariant_witness:
  "gameState scenarioState = playing \<and> cellAt (grid scenarioState) 0 1 \<noteq> None
   \<and> selection (foldl (\<lambda>s p. handleCellEnter s (fst p) (snd p))
        (handlePointerDown scenarioState 0 1) [(0, 2), (0, 3), (0, 4), (1, 4)])
     = scenarioChain
   \<and> chainOK (grid scenarioState)
       (selection (foldl (\<lambda>s p. handleCellEnter s (fst p) (snd p))
          (handlePointerDown scenarioState 0 1) [(0, 2), (0, 3), (0, 4), (1, 4)]))
   \<and> chainOK_levels (grid scenarioState)
       (selection (foldl (\<lambda>s p. handleCellEnter_levels s (fst p) (snd p))
          (handlePointerDown scenarioState 0 1) [(0, 2), (0, 3), (0, 4), (1, 4)]))"
proof -
  have p1: "gameState scenarioState = playing"
    by (simp add: scenarioState_def)
  have p2: "cellAt (grid scenarioState) 0 1 \<noteq> None"
    by code_simp
  have run: "selection (foldl (\<lambda>s p. handleCellEnter s (fst p) (snd p))
        (handlePointerDown scenarioState 0 1) [(0, 2), (0, 3), (0, 4), (1, 4)])
     = scenarioChain"
    by code_simp
  from chain_invariant[OF p1 p2, of "[(0, 2), (0, 3), (0, 4), (1, 4)]"] p1 p2 run
  show ?thesis by blast
qed

lemma extendSelection_cases:
  "prev \<noteq> [] \<Longrightarrow> stepOK prev (r, c) (extendSelection g prev r c)"
proof -
  assume ne: "prev \<noteq> []"
  have a: "extendSelection g prev r c = prev \<or> extendSelection g prev r c = prev @ [(r, c)]
      \<or> (2 \<le> length prev \<and> extendSelection g prev r c = butlast prev)"
    by (auto simp: extendSelection_def split: option.splits)
  have "butlast prev \<noteq> []" if "2 \<le> length prev"
    using that by (cases prev rule: rev_cases) auto
  with a ne show ?thesis unfolding stepOK_def by (auto simp: Suc_le_eq)
qed

lemma extendSelection_levels_cases:
  "prev \<noteq> [] \<Longrightarrow> stepOK prev (r, c) (extendSelection_levels g prev r c)"
proof -
  assume ne: "prev \<noteq> []"
  have a: "extendSelection_levels g prev r c = prev
      \<or> extendSelection_levels g prev r c = prev @ [(r, c)]
      \<or> (2 \<le> length prev \<and> extendSelection_levels g prev r c = butlast prev)"
    by (auto simp: extendSelection_levels_def split: option.splits)
  have "butlast prev \<noteq> []" if "2 \<le> length prev"
    using that by (cases prev rule: rev_cases) auto
  with a ne show ?thesis unfolding stepOK_def by (auto simp: Suc_le_eq)
qed

text \<open>
  Claim C10. A cell-enter event never empties an active chain: from a non-empty chain
  the handler leaves the chain as it is, appends the entered cell, or, only when the
  chain has at least two elements, removes the last one; the result has at least one
  element. Both revisions of \<^verbatim>\<open>handleCellEnter\<close>.
\<close>

theorem extend_never_empties:
  assumes "selection st \<noteq> []"
  shows "stepOK (selection st) (r, c) (selection (handleCellEnter st r c))
       \<and> stepOK (selection st) (r, c) (selection (handleCellEnter_levels st r c))"
proof -
  have idle: "stepOK (selection st) (r, c) (selection st)"
    using assms by (simp add: stepOK_def Suc_le_eq)
  show ?thesis
    using idle extendSelection_cases[OF assms] extendSelection_levels_cases[OF assms]
    by (simp add: handleCellEnter_def handleCellEnter_levels_def)
qed

theorem extend_never_empties_witness:
  "selection (dragging [(0, 1), (0, 2)]) \<noteq> []
   \<and> selection (handleCellEnter (dragging [(0, 1), (0, 2)]) 0 1) = [(0, 1)]
   \<and> stepOK (selection (dragging [(0, 1), (0, 2)])) (0, 1)
       (selection (handleCellEnter (dragging [(0, 1), (0, 2)]) 0 1))
   \<and> stepOK (selection (dragging [(0, 1), (0, 2)])) (0, 1)
       (selection (handleCellEnter_levels (dragging [(0, 1), (0, 2)]) 0 1))"
proof -
  have p: "selection (dragging [(0, 1), (0, 2)]) \<noteq> []"
    by (simp add: dragging_def)
  have bt: "selection (handleCellEnter (dragging [(0, 1), (0, 2)]) 0 1) = [(0, 1)]"
    by code_simp
  from extend_never_empties[OF p, of 0 1] p bt show ?thesis by blast
qed

subsection \<open>Gravity and refill\<close>

lemma map_update_id: "(map f g)[r := f (g ! r)] = map f g"
  by (metis list_update_id map_update)

lemma replicate_update_last: "(replicate (Suc k) None)[k := x] = replicate k None @ [x]"
  by (induction k) simp_all

lemma length_setCell: "length (setCell g r c v) = length g"
  by (simp add: setCell_def)

lemma rowlens_setCell: "map length (setCell g r c v) = map length g"
  by (simp add: setCell_def map_update map_update_id)

lemma column_setCell_same:
  "r < length g \<Longrightarrow> c < length (g ! r) \<Longrightarrow> column (setCell g r c v) c = (column g c)[r := v]"
  by (simp add: column_def setCell_def map_update)

lemma column_setCell_other:
  "c' \<noteq> c \<Longrightarrow> column (setCell g r c v) c' = column g c'"
  using map_update_id[of "\<lambda>row. row ! c'" g r]
  by (simp add: column_def setCell_def map_update)

lemma length_column: "length (column g c) = length g"
  by (simp add: column_def)

lemma cellAt_column:
  "r < length g \<Longrightarrow> c < length (g ! r) \<Longrightarrow> cellAt g r c = column g c ! r"
  by (simp add: cellAt_def column_def)

lemma wide_nth: "wide g c \<Longrightarrow> r < length g \<Longrightarrow> c < length (g ! r)"
  by (simp add: wide_def list_all_iff)

lemma wide_setCell: "wide (setCell g r c' v) c = wide g c"
  by (simp only: wide_def rowlens_setCell)

lemma shift_update:
  "length A = r \<Longrightarrow>
   (A @ x # replicate (Suc k) None @ F)[r + Suc k := x, r := None]
     = A @ replicate (Suc k) None @ x # F"
proof -
  assume l: "length A = r"
  have a: "(replicate (Suc k) None @ F)[k := x] = replicate k None @ x # F"
    using replicate_update_last[of k x] by (simp add: list_update_append del: replicate_Suc)
  have "(A @ x # replicate (Suc k) None @ F)[r + Suc k := x]
        = A @ x # (replicate (Suc k) None @ F)[k := x]"
    using l by (simp add: list_update_append del: replicate_Suc)
  also have "\<dots> = A @ x # replicate k None @ x # F" using a by simp
  finally show ?thesis using l by (simp add: list_update_append)
qed

lemma compactColumn_inv:
  assumes "wide g c" "column g c = A @ replicate e None @ F" "length A = n" "None \<notin> set F"
  shows "case compactColumn c n g e of (g', e') \<Rightarrow>
           column g' c = replicate e' None @ filter (\<lambda>x. x \<noteq> None) A @ F
         \<and> e' = e + length (filter (\<lambda>x. x = None) A)
         \<and> (\<forall>c'. c' \<noteq> c \<longrightarrow> column g' c' = column g c')
         \<and> map length g' = map length g"
  using assms
proof (induction n arbitrary: g e A F)
  case 0
  then show ?case by simp
next
  case (Suc r)
  from Suc.prems(3) obtain A' x where A: "A = A' @ [x]" and lA: "length A' = r"
    by (cases A rule: rev_cases) auto
  have col: "column g c = A' @ x # replicate e None @ F"
    using Suc.prems(2) A by simp
  have rlt: "r < length g"
    using col lA length_column[of g c] by simp
  have cw: "c < length (g ! r)" using wide_nth[OF Suc.prems(1) rlt] .
  have x: "cellAt g r c = x"
    using cellAt_column[OF rlt cw] col lA by (simp add: nth_append)
  show ?case
  proof (cases "x = None")
    case True
    have "column g c = A' @ replicate (Suc e) None @ F"
      using col True by (simp add: replicate_app_Cons_same)
    from Suc.IH[OF Suc.prems(1) this lA Suc.prems(4)]
    show ?thesis using True x A by (simp split: prod.splits)
  next
    case xs: False
    show ?thesis
    proof (cases "e > 0")
      case False
      then have "column g c = A' @ replicate 0 None @ (x # F)" using col by simp
      from Suc.IH[OF Suc.prems(1) this lA] xs Suc.prems(4)
      show ?thesis using False x A by (simp split: prod.splits)
    next
      case True
      then obtain k where k: "e = Suc k" by (cases e) auto
      let ?g1 = "setCell g (r + e) c x"
      let ?g2 = "setCell ?g1 r c None"
      have relt: "r + e < length g"
        using col lA length_column[of g c] by simp
      have c1: "column ?g1 c = (column g c)[r + e := x]"
        using column_setCell_same[OF relt wide_nth[OF Suc.prems(1) relt]] .
      have w1: "wide ?g1 c" using Suc.prems(1) by (simp add: wide_setCell)
      have r1: "r < length ?g1" using rlt by (simp add: length_setCell)
      have c2: "column ?g2 c = (column g c)[r + e := x, r := None]"
        using column_setCell_same[OF r1 wide_nth[OF w1 r1]] c1 by simp
      have c2': "column ?g2 c = A' @ replicate e None @ (x # F)"
        using c2 col k shift_update[OF lA, of x k F] by simp
      have w2: "wide ?g2 c" using w1 by (simp add: wide_setCell)
      have oth: "\<And>c'. c' \<noteq> c \<Longrightarrow> column ?g2 c' = column g c'"
        by (simp add: column_setCell_other)
      have lens: "map length ?g2 = map length g" by (simp add: rowlens_setCell)
      have nF: "None \<notin> set (x # F)" using xs Suc.prems(4) by auto
      from Suc.IH[OF w2 c2' lA nF]
      show ?thesis using True xs x A oth lens by (simp split: prod.splits)
    qed
  qed
qed


lemma refillColumn_inv:
  assumes "wide g c" "column g c = replicate e None @ G"
  shows "column (refillColumn gen c e g) c = map (\<lambda>r. Some (newBall gen r c)) [0..<e] @ G
       \<and> (\<forall>c'. c' \<noteq> c \<longrightarrow> column (refillColumn gen c e g) c' = column g c')
       \<and> map length (refillColumn gen c e g) = map length g"
proof -
  have "k \<le> e \<Longrightarrow>
        column (refillColumn gen c k g) c
          = map (\<lambda>r. Some (newBall gen r c)) [0..<k] @ replicate (e - k) None @ G
      \<and> (\<forall>c'. c' \<noteq> c \<longrightarrow> column (refillColumn gen c k g) c' = column g c')
      \<and> map length (refillColumn gen c k g) = map length g" for k
  proof (induction k)
    case 0
    then show ?case using assms(2) by (simp add: refillColumn_def)
  next
    case (Suc k)
    let ?h = "refillColumn gen c k g"
    have step: "refillColumn gen c (Suc k) g = setCell ?h k c (Some (newBall gen k c))"
      by (simp add: refillColumn_def)
    from Suc have ih: "column ?h c
          = map (\<lambda>r. Some (newBall gen r c)) [0..<k] @ replicate (e - k) None @ G"
      and oth: "\<forall>c'. c' \<noteq> c \<longrightarrow> column ?h c' = column g c'"
      and lens: "map length ?h = map length g" by simp_all
    have wh: "wide ?h c" using assms(1) lens by (simp add: wide_def list_all_iff)
    have klt: "k < length ?h"
      using ih Suc.prems length_column[of ?h c] by simp
    obtain m where m: "e - k = Suc m" "e - Suc k = m" using Suc.prems by (cases "e - k") auto
    have "column (setCell ?h k c (Some (newBall gen k c))) c
            = (column ?h c)[k := Some (newBall gen k c)]"
      using column_setCell_same[OF klt wide_nth[OF wh klt]] .
    also have "\<dots> = map (\<lambda>r. Some (newBall gen r c)) [0..<Suc k] @ replicate (e - Suc k) None @ G"
      using m by (simp add: ih list_update_append)
    finally show ?case
      using oth lens by (simp add: step column_setCell_other rowlens_setCell)
  qed
  from this[of e] show ?thesis by simp
qed

lemma gravityColumn_column:
  assumes "wide g c" "length g = ROWS"
  shows "column (gravityColumn gen c g) c
           = map (\<lambda>r. Some (newBall gen r c)) [0..<emptyCount g c] @ occupiedCells g c
       \<and> (\<forall>c'. c' \<noteq> c \<longrightarrow> column (gravityColumn gen c g) c' = column g c')
       \<and> map length (gravityColumn gen c g) = map length g"
proof -
  obtain g' e' where ce: "compactColumn c ROWS g 0 = (g', e')"
    by (cases "compactColumn c ROWS g 0")
  have "column g c = column g c @ replicate 0 None @ []" by simp
  from compactColumn_inv[OF assms(1) this, of ROWS] assms(2) ce
  have col: "column g' c = replicate e' None @ occupiedCells g c"
    and e': "e' = emptyCount g c"
    and oth: "\<forall>c'. c' \<noteq> c \<longrightarrow> column g' c' = column g c'"
    and lens: "map length g' = map length g"
    by (simp_all add: length_column emptyCount_def occupiedCells_def)
  have w: "wide g' c" using assms(1) lens by (simp add: wide_def list_all_iff)
  from refillColumn_inv[OF w col, of gen] oth lens e' ce
  show ?thesis by (simp add: gravityColumn_def)
qed

lemma fold_gravity:
  assumes "length g = ROWS" "\<forall>c\<in>set cs. wide g c" "distinct cs"
  shows "column (fold (gravityColumn gen) cs g) c
           = (if c \<in> set cs
              then map (\<lambda>r. Some (newBall gen r c)) [0..<emptyCount g c] @ occupiedCells g c
              else column g c)
       \<and> map length (fold (gravityColumn gen) cs g) = map length g"
  using assms
proof (induction cs arbitrary: g)
  case Nil
  then show ?case by simp
next
  case (Cons a cs)
  let ?g1 = "gravityColumn gen a g"
  have wa: "wide g a" using Cons.prems(2) by simp
  note gc = gravityColumn_column[OF wa Cons.prems(1), of gen]
  from gc have lens: "map length ?g1 = map length g" by simp
  then have l1: "length ?g1 = ROWS" using Cons.prems(1) by (metis length_map)
  have w1: "\<forall>c\<in>set cs. wide ?g1 c" using Cons.prems(2) lens by (simp add: wide_def list_all_iff)
  have d1: "distinct cs" using Cons.prems(3) by simp
  have same: "column ?g1 c = column g c" if "c \<noteq> a" using gc that by simp
  have cnt: "emptyCount ?g1 c = emptyCount g c" "occupiedCells ?g1 c = occupiedCells g c"
    if "c \<noteq> a" using same[OF that] by (simp_all add: emptyCount_def occupiedCells_def)
  note ih = Cons.IH[OF l1 w1 d1]
  have len: "map length (fold (gravityColumn gen) (a # cs) g) = map length g"
    using ih lens by simp
  show ?case
  proof (cases "c \<in> set cs")
    case True
    then have "c \<noteq> a" using Cons.prems(3) by auto
    with ih True cnt len show ?thesis by simp
  next
    case False
    then have "column (fold (gravityColumn gen) (a # cs) g) c = column ?g1 c"
      using ih by simp
    with False gc same len show ?thesis by (cases "c = a") simp_all
  qed
qed

lemma gridOK_wide: "gridOK g \<Longrightarrow> c < COLS \<Longrightarrow> wide g c"
  by (auto simp: gridOK_def wide_def list_all_iff)



lemma gridOK_cong: "map length g' = map length g \<Longrightarrow> gridOK g \<Longrightarrow> gridOK g'"
proof -
  assume lens: "map length g' = map length g" and ok: "gridOK g"
  have "length g' = length g" using lens by (metis length_map)
  moreover have "set (map length g') = set (map length g)" using lens by simp
  then have "\<forall>row\<in>set g'. length row = COLS"
    using ok unfolding gridOK_def list_all_iff by (metis (no_types, lifting) imageE image_eqI list.set_map)
  ultimately show ?thesis using ok by (simp add: gridOK_def list_all_iff)
qed

text \<open>
  Claim C4. On every grid of \<open>ROWS\<close> by \<open>COLS\<close> cells, \<^verbatim>\<open>applyGravity\<close> returns a grid
  of the same shape with no empty cell, and every column of the result is the freshly
  generated balls, one for each empty cell of the input column, on top of the occupied
  cells of the input column in their original order.
\<close>

theorem gravity_refill:
  assumes "gridOK g"
  shows "gridOK (applyGravity gen g) \<and> noEmpty (applyGravity gen g)
       \<and> (\<forall>c<COLS. column (applyGravity gen g) c
             = map (\<lambda>r. Some (newBall gen r c)) [0..<emptyCount g c] @ occupiedCells g c)"
proof -
  let ?g' = "applyGravity gen g"
  have l: "length g = ROWS" using assms by (simp add: gridOK_def)
  have w: "\<forall>c\<in>set [0..<COLS]. wide g c" using assms by (simp add: gridOK_wide)
  have lens: "map length ?g' = map length g"
    using fold_gravity[OF l w distinct_upt, of gen 0] by (simp add: applyGravity_def)
  have ok: "gridOK ?g'" using gridOK_cong[OF lens assms] .
  have cols: "column ?g' c
             = map (\<lambda>r. Some (newBall gen r c)) [0..<emptyCount g c] @ occupiedCells g c"
    if "c < COLS" for c
    using fold_gravity[OF l w distinct_upt, of gen c] that by (simp add: applyGravity_def)
  have "x \<noteq> None" if "row \<in> set ?g'" "x \<in> set row" for row x
  proof -
    from that(1) obtain r where r: "r < length ?g'" "row = ?g' ! r"
      by (metis in_set_conv_nth)
    from that(2) obtain c where c: "c < length row" "x = row ! c"
      by (metis in_set_conv_nth)
    have "length row = COLS" using ok that(1) by (simp add: gridOK_def list_all_iff)
    then have cc: "c < COLS" using c by simp
    have "x = column ?g' c ! r" using r c by (simp add: column_def)
    moreover have "r < length (column ?g' c)" using r by (simp add: length_column)
    ultimately have "x \<in> set (column ?g' c)" by simp
    then show ?thesis unfolding cols[OF cc] by (auto simp: occupiedCells_def)
  qed
  then have "noEmpty ?g'" by (simp add: noEmpty_def list_all_iff)
  with ok cols show ?thesis by simp
qed

theorem gravity_refill_witness:
  "gridOK holedGrid \<and> gridOK (applyGravity sampleGen holedGrid)
   \<and> noEmpty (applyGravity sampleGen holedGrid)
   \<and> column holedGrid 4
       = [None, None, Some yellowBall, Some yellowBall, Some yellowBall, Some yellowBall,
          Some yellowBall, Some yellowBall]
   \<and> column (applyGravity sampleGen holedGrid) 4
       = [Some (newBall sampleGen 0 4), Some (newBall sampleGen 1 4), Some yellowBall,
          Some yellowBall, Some yellowBall, Some yellowBall, Some yellowBall, Some yellowBall]"
proof -
  have p: "gridOK holedGrid"
    by code_simp
  have c4: "(4::nat) < COLS"
    by (simp add: COLS_def)
  have before: "column holedGrid 4
       = [None, None, Some yellowBall, Some yellowBall, Some yellowBall, Some yellowBall,
          Some yellowBall, Some yellowBall]"
    by code_simp
  have top: "map (\<lambda>r. Some (newBall sampleGen r 4)) [0..<emptyCount holedGrid 4]
        @ occupiedCells holedGrid 4
       = [Some (newBall sampleGen 0 4), Some (newBall sampleGen 1 4), Some yellowBall,
          Some yellowBall, Some yellowBall, Some yellowBall, Some yellowBall, Some yellowBall]"
    by code_simp
  from gravity_refill[OF p, of sampleGen] c4 top before p show ?thesis
    by simp
qed

subsection \<open>The combo meter\<close>

lemma handlePointerUp_commit:
  "commits st \<Longrightarrow>
   handlePointerUp gen now st = (resolveMatch gen now st)\<lparr>isDragging := False, selection := []\<rparr>"
  by (auto simp: commits_def handlePointerUp_def split: option.splits)

lemma handlePointerUp_no_commit:
  "\<not> commits st \<Longrightarrow>
   handlePointerUp gen now st = st
   \<or> handlePointerUp gen now st = st\<lparr>isDragging := False, selection := []\<rparr>
   \<or> handlePointerUp gen now st
       = st\<lparr>isDragging := False, combo := 0, comboMeter := max 0 (comboMeter st - 15),
            selection := []\<rparr>"
  by (auto simp: commits_def handlePointerUp_def split: option.splits)

lemma length_bomb: "length fs \<le> length (fold (bombStep g k) ps fs)"
proof (induction ps arbitrary: fs)
  case Nil
  then show ?case by simp
next
  case (Cons p ps)
  have "length fs \<le> length (bombStep g k p fs)"
    by (simp add: bombStep_def split: option.splits)
  also have "\<dots> \<le> length (fold (bombStep g k) ps (bombStep g k p fs))" by (rule Cons.IH)
  finally show ?case by simp
qed

lemma length_finalSelection: "length (selection st) \<le> length (finalSelection st)"
  by (simp add: finalSelection_def length_bomb split: option.splits)

lemma removalCount_commit: "commits st \<Longrightarrow> 3 \<le> removalCount st"
  using length_finalSelection[of st] by (simp add: commits_def removalCount_def MIN_MATCH_def)

lemma increment_range: "3 \<le> removalCount st \<Longrightarrow> 10 \<le> increment st \<and> increment st \<le> 25"
  by (simp add: increment_def)

lemma meter_commit:
  assumes "commits st" "meterOK (comboMeter st)"
  shows "meterOK (comboMeter (handlePointerUp gen now st))"
  using assms increment_range[OF removalCount_commit[OF assms(1)]]
  by (simp add: handlePointerUp_commit resolveMatch_def breakout_def newValue_def meterOK_def)

lemma meter_pointerUp:
  "meterOK (comboMeter st) \<Longrightarrow> meterOK (comboMeter (handlePointerUp gen now st))"
proof (cases "commits st")
  case True
  then show "meterOK (comboMeter st) \<Longrightarrow> ?thesis" by (rule meter_commit)
next
  case False
  assume "meterOK (comboMeter st)"
  with handlePointerUp_no_commit[OF False, of gen now] show ?thesis
    by (auto simp: meterOK_def)
qed

lemma meter_step: "meterOK (comboMeter st) \<Longrightarrow> meterOK (comboMeter (step st e))"
proof (cases e)
  case (PointerUp gen now)
  then show "meterOK (comboMeter st) \<Longrightarrow> ?thesis" by (simp add: meter_pointerUp)
qed (simp_all add: handlePointerDown_def handlePointerMove_def handleCellEnter_def
      startGame_def startNextLevel_def resetGame_def goToHome_def meterOK_def Let_def)

lemma meter_run:
  "meterOK (comboMeter st) \<Longrightarrow> meterOK (comboMeter (foldl step st evs))"
  by (induction evs arbitrary: st) (simp_all add: meter_step)

text \<open>
  Claim C6. From the first render on, whatever events follow, the combo meter stays in
  \<open>[0, 100)\<close>. A commit adds \<open>min 25 (10 + (removalCount - 3) * 5)\<close> to the meter; when
  the sum reaches 100 the meter is reset to 0, the score gets 500 on top of the commit's
  own score and the moves get 2 on top of the commit's own change of moves.
\<close>

theorem combo_meter:
  assumes "commits st"
  shows "meterOK (comboMeter (foldl step (initialState fresh) evs))
       \<and> (let st' = handlePointerUp gen now st;
              total = comboMeter st + min 25 (10 + (removalCount st - 3) * 5)
          in if total \<ge> 100
             then comboMeter st' = 0
                \<and> score st' = score st + baseScore st * bonusMultiplier st + 500
                \<and> moves st' = moves st - 1 + addedMoves st + 2
             else comboMeter st' = total
                \<and> score st' = score st + baseScore st * bonusMultiplier st
                \<and> moves st' = moves st - 1 + addedMoves st)"
proof -
  have "meterOK (comboMeter (initialState fresh))"
    by (simp add: initialState_def meterOK_def)
  then have "meterOK (comboMeter (foldl step (initialState fresh) evs))"
    by (rule meter_run)
  then show ?thesis
    using assms
    by (simp add: handlePointerUp_commit resolveMatch_def breakout_def newValue_def
        newMoves_def increment_def Let_def)
qed

theorem combo_meter_witness:
  "commits nearBreakout
   \<and> meterOK (comboMeter (foldl step (initialState scenarioGrid)
        [StartGame, PointerDown 0 1, PointerMove 0 2, PointerMove 0 3,
         PointerUp sampleGen ''0'']))
   \<and> comboMeter nearBreakout = 80
   \<and> comboMeter (handlePointerUp sampleGen ''0'' nearBreakout) = 0
   \<and> score (handlePointerUp sampleGen ''0'' nearBreakout) = score nearBreakout + 100 + 500
   \<and> moves (handlePointerUp sampleGen ''0'' nearBreakout) = moves nearBreakout - 1 + 0 + 2"
proof -
  have p: "commits nearBreakout"
    by code_simp
  have v: "comboMeter nearBreakout = 80" "removalCount nearBreakout = 5"
    "baseScore nearBreakout * bonusMultiplier nearBreakout = 100"
    "addedMoves nearBreakout = 0"
    by code_simp+
  from combo_meter[OF p, of scenarioGrid
      "[StartGame, PointerDown 0 1, PointerMove 0 2, PointerMove 0 3, PointerUp sampleGen ''0'']"
      sampleGen "''0''"] p v
  show ?thesis by (simp add: Let_def)
qed

subsection \<open>Score, targets and moves of a commit\<close>

lemma plain_chainColor:
  "plainChain g sel k \<Longrightarrow> \<not> isWildcard k \<Longrightarrow> sel \<noteq> [] \<Longrightarrow> getChainColor g sel = Some k"
  by (cases sel) (auto simp: plainChain_def isWildcard_def split: option.splits)

lemma plain_no_powerup: "plainChain g sel k \<Longrightarrow> \<not> list_ex (hasPowerup g p) sel"
  by (auto simp: plainChain_def hasPowerup_def list_all_iff list_ex_iff split: option.splits)

lemma plain_no_moves:
  "plainChain g sel k \<Longrightarrow>
   fold (\<lambda>s acc. if hasPowerup g Moves s then acc + 3 else acc) sel (a::int) = a"
proof (induction sel arbitrary: a)
  case Nil
  then show ?case by simp
next
  case (Cons s sel)
  then have "\<not> hasPowerup g Moves s" "plainChain g sel k"
    by (auto simp: plainChain_def hasPowerup_def split: option.splits)
  with Cons.IH show ?case by simp
qed

lemma plain_no_color:
  "plainChain g sel k \<Longrightarrow> k' \<noteq> k \<Longrightarrow> \<not> list_ex (hasColor g k') sel"
  by (auto simp: plainChain_def hasColor_def list_all_iff list_ex_iff split: option.splits)

lemma plain_facts:
  assumes "plainChain (grid st) (selection st) k" "\<not> isWildcard k" "selection st \<noteq> []"
  shows "chainColor st = Some k" "finalSelection st = selection st"
    "collectedMoves st = 0" "\<not> activatedMultiplier st" "\<not> usedRainbow st"
    "\<not> usedSpecial st"
proof -
  show cc: "chainColor st = Some k"
    using assms by (simp add: chainColor_def plain_chainColor)
  show fs: "finalSelection st = selection st"
    using cc plain_no_powerup[OF assms(1), of Bomb]
    by (simp add: finalSelection_def activatedBomb_def)
  show "collectedMoves st = 0"
    using plain_no_moves[OF assms(1)] by (simp add: collectedMoves_def)
  show "\<not> activatedMultiplier st"
    using plain_no_powerup[OF assms(1)] by (simp add: activatedMultiplier_def)
  have "rainbow \<noteq> k" "special \<noteq> k" using assms(2) by (auto simp: isWildcard_def)
  then show "\<not> usedRainbow st" "\<not> usedSpecial st"
    using plain_no_color[OF assms(1)] by (simp_all add: usedRainbow_def usedSpecial_def fs)
qed

lemma commits_nonempty: "commits st \<Longrightarrow> selection st \<noteq> []"
  by (auto simp: commits_def MIN_MATCH_def)

lemma plain_first:
  "plainChain g sel k \<Longrightarrow> sel \<noteq> [] \<Longrightarrow>
   \<exists>b. cellAt g (fst (sel ! 0)) (snd (sel ! 0)) = Some b \<and> color b = k"
  by (cases sel) (auto simp: plainChain_def split: option.splits)

lemma handlePointerUp_levels_commit:
  "commits st \<Longrightarrow> cellAt (grid st) (fst (selection st ! 0)) (snd (selection st ! 0)) = Some b \<Longrightarrow>
   handlePointerUp_levels gen st
     = (resolveMatch_levels gen b st)\<lparr>isDragging := False, selection := []\<rparr>"
  by (auto simp: commits_def handlePointerUp_levels_def split: option.splits)

lemma handlePointerUp_basic_commit:
  "commits st \<Longrightarrow> cellAt (grid st) (fst (selection st ! 0)) (snd (selection st ! 0)) = Some b \<Longrightarrow>
   handlePointerUp_basic gen st
     = (resolveMatch_basic gen b st)\<lparr>isDragging := False, selection := []\<rparr>"
  by (auto simp: commits_def handlePointerUp_basic_def split: option.splits)

lemma commits_first: "commits st \<Longrightarrow>
  \<exists>b. cellAt (grid st) (fst (selection st ! 0)) (snd (selection st ! 0)) = Some b"
  by (auto simp: commits_def)

lemma score_general:
  assumes "commits st"
  shows "score (handlePointerUp gen now st)
           = score st
             + removalCount st * 10
               * (if removalCount st \<ge> 10 then 4 else if removalCount st \<ge> 5 then 2 else 1)
               * (if multiplierTurns st > 0 \<or> activatedMultiplier st then 2 else 1)
             + (if breakout st then 500 else 0)"
  using assms
  by (simp add: handlePointerUp_commit resolveMatch_def baseScore_def bonusMultiplier_def
      isBonus_def isSuperBonus_def)

lemma score_plain_five:
  assumes "commits st" "plainChain (grid st) (selection st) k" "\<not> isWildcard k"
    and "length (selection st) = 5"
  shows "isBonus st \<and> \<not> isSuperBonus st
       \<and> score (handlePointerUp gen now st)
           = score st + 100 * (if multiplierTurns st > 0 then 2 else 1)
             + (if comboMeter st \<ge> 80 then 500 else 0)"
proof -
  have ne: "selection st \<noteq> []" using assms(4) by auto
  have pf: "finalSelection st = selection st" "\<not> activatedMultiplier st"
    using plain_facts[OF assms(2,3) ne] by simp_all
  have n: "removalCount st = 5" using assms(4) pf by (simp add: removalCount_def)
  have b: "breakout st = (comboMeter st \<ge> 80)"
    using n by (auto simp: breakout_def newValue_def increment_def)
  show ?thesis
    unfolding score_general[OF assms(1)] using n pf b
    by (simp add: isBonus_def isSuperBonus_def)
qed

lemma score_levels:
  assumes "commits st"
  shows "score (handlePointerUp_levels gen st)
           = score st
             + int (length (selection st)) * 10 * (if length (selection st) > 5 then 2 else 1)"
proof -
  from commits_first[OF assms] obtain b where
    "cellAt (grid st) (fst (selection st ! 0)) (snd (selection st ! 0)) = Some b" ..
  from handlePointerUp_levels_commit[OF assms this]
  show ?thesis by (simp add: resolveMatch_levels_def isBonus_levels_def Let_def)
qed

text \<open>
  Claim C1, as stated, fails. In \<^verbatim>\<open>src/App.tsx\<close> the chain of five yellow balls of the scenario
  scores 50, not 100: the doubled score starts above five balls. In part\_001 the same
  chain scores 200 while a score multiplier is running, and 600 when the commit fills
  the combo meter.
\<close>

theorem five_chain_counterexample:
  "commits (dragging scenarioChain) \<and> chainOK scenarioGrid scenarioChain
   \<and> plainChain scenarioGrid scenarioChain yellow
   \<and> length scenarioChain = 5 \<and> score (dragging scenarioChain) = 0
   \<and> score (handlePointerUp_levels sampleGen (dragging scenarioChain)) = 50
   \<and> score (handlePointerUp sampleGen ''0'' buffed) = 200
   \<and> score (handlePointerUp sampleGen ''0'' nearBreakout) = 600"
  by code_simp

text \<open>
  Claim C1, amended. In part\_001 a commit scores ten points for each removed cell, times 4
  from ten cells and times 2 from five, times 2 again while a score multiplier is
  running or collected, plus 500 on a combo breakout; so a chain of exactly five balls
  of one colour without powerups is in the bonus tier and adds 100 points when no
  multiplier is running and the meter is below 80 (200 with a multiplier, 500 more on
  the breakout). In \<^verbatim>\<open>src/App.tsx\<close> a commit scores ten points for each ball of the chain,
  doubled only when the chain is longer than five.
\<close>

theorem score_of_commit:
  assumes "commits st"
  shows "score (handlePointerUp gen now st)
           = score st
             + removalCount st * 10
               * (if removalCount st \<ge> 10 then 4 else if removalCount st \<ge> 5 then 2 else 1)
               * (if multiplierTurns st > 0 \<or> activatedMultiplier st then 2 else 1)
             + (if breakout st then 500 else 0)
       \<and> (plainChain (grid st) (selection st) k \<and> \<not> isWildcard k \<and> length (selection st) = 5
            \<longrightarrow> isBonus st \<and> \<not> isSuperBonus st
              \<and> score (handlePointerUp gen now st)
                  = score st + 100 * (if multiplierTurns st > 0 then 2 else 1)
                    + (if comboMeter st \<ge> 80 then 500 else 0))
       \<and> score (handlePointerUp_levels gen st)
           = score st
             + int (length (selection st)) * 10 * (if length (selection st) > 5 then 2 else 1)"
  using score_general[OF assms, of gen now] score_plain_five[OF assms, of k gen now]
    score_levels[OF assms, of gen]
  by blast

theorem score_of_commit_witness:
  "commits (dragging scenarioChain)
   \<and> plainChain (grid (dragging scenarioChain)) (selection (dragging scenarioChain)) yellow
   \<and> \<not> isWildcard yellow \<and> length (selection (dragging scenarioChain)) = 5
   \<and> isBonus (dragging scenarioChain) \<and> \<not> isSuperBonus (dragging scenarioChain)
   \<and> score (handlePointerUp sampleGen ''0'' (dragging scenarioChain))
       = score (dragging scenarioChain) + 100
   \<and> score (handlePointerUp_levels sampleGen (dragging scenarioChain))
       = score (dragging scenarioChain) + 50"
proof -
  have p: "commits (dragging scenarioChain)"
    by code_simp
  have q: "plainChain (grid (dragging scenarioChain)) (selection (dragging scenarioChain)) yellow"
    "\<not> isWildcard yellow" "length (selection (dragging scenarioChain)) = 5"
    by code_simp+
  have v: "multiplierTurns (dragging scenarioChain) = 0" "comboMeter (dragging scenarioChain) = 0"
    by code_simp+
  from score_of_commit[OF p, of sampleGen "''0''" yellow] p q v
  show ?thesis by simp
qed

lemma max_min: "max 0 (v - n) = v - min v (n::int)"
  by simp

lemma lowerTarget_at: "t k = Some v \<Longrightarrow> lowerTarget t k n k = Some (v - min v n)"
  by (simp add: lowerTarget_def)

lemma lowerTarget_other: "k' \<noteq> k \<Longrightarrow> lowerTarget t k n k' = t k'"
  by (simp add: lowerTarget_def split: option.splits)

lemma newTargets_plain:
  assumes "plainChain (grid st) (selection st) k" "\<not> isWildcard k" "selection st \<noteq> []"
  shows "newTargets st = lowerTarget (targets st) k (int (length (selection st)))"
  using plain_facts[OF assms]
  by (simp add: newTargets_def lowerTarget_def removalCount_def split: option.splits)

text \<open>
  Claim C2, as stated, fails. In part\_001 the chain of ten yellow balls, without powerup
  or wildcard, lowers the yellow target from 10 to 0 and leaves the moves at 20: a
  removal of ten cells or more gives one move back.
\<close>

theorem ten_chain_counterexample:
  "commits (dragging tenChain) \<and> chainOK scenarioGrid tenChain
   \<and> plainChain scenarioGrid tenChain yellow
   \<and> length tenChain = 10 \<and> targets (dragging tenChain) yellow = Some 10
   \<and> moves (dragging tenChain) = 20
   \<and> targets (handlePointerUp sampleGen ''0'' (dragging tenChain)) yellow = Some 0
   \<and> moves (handlePointerUp sampleGen ''0'' (dragging tenChain)) = 20"
  by code_simp

text \<open>
  Claim C2, amended. A committed chain of \<open>L\<close> balls of one colour, with no powerup and no
  wildcard, whose colour has a target \<open>v\<close>, lowers that target by \<open>min v L\<close> and leaves
  every other target as it is. In \<^verbatim>\<open>src/App.tsx\<close> and in part\_000 the moves go down by
  exactly 1; in part\_001 the moves change by \<open>-1\<close>, plus 1 when \<open>L \<ge> 10\<close>, plus 2 when the
  commit fills the combo meter.
\<close>

theorem target_and_move:
  assumes "commits st" "plainChain (grid st) (selection st) k" "\<not> isWildcard k"
    and "targets st k = Some v"
  shows "(let st' = handlePointerUp gen now st; n = int (length (selection st)) in
            targets st' k = Some (v - min v n)
          \<and> (\<forall>k'. k' \<noteq> k \<longrightarrow> targets st' k' = targets st k')
          \<and> moves st' = moves st - 1 + (if n \<ge> 10 then 1 else 0)
                         + (if breakout st then 2 else 0))
       \<and> (let st' = handlePointerUp_levels gen st; n = int (length (selection st)) in
            targets st' k = Some (v - min v n)
          \<and> (\<forall>k'. k' \<noteq> k \<longrightarrow> targets st' k' = targets st k')
          \<and> moves st' = moves st - 1)
       \<and> (let st' = handlePointerUp_basic gen st; n = int (length (selection st)) in
            targets st' k = Some (v - min v n)
          \<and> (\<forall>k'. k' \<noteq> k \<longrightarrow> targets st' k' = targets st k')
          \<and> moves st' = moves st - 1)"
proof -
  have ne: "selection st \<noteq> []" using assms(1) by (rule commits_nonempty)
  note pf = plain_facts[OF assms(2,3) ne]
  from plain_first[OF assms(2) ne] obtain b where
    b: "cellAt (grid st) (fst (selection st ! 0)) (snd (selection st ! 0)) = Some b"
       "color b = k" by blast
  have t1: "targets (handlePointerUp gen now st)
              = lowerTarget (targets st) k (int (length (selection st)))"
    using assms(1) newTargets_plain[OF assms(2,3) ne]
    by (simp add: handlePointerUp_commit resolveMatch_def)
  have m1: "moves (handlePointerUp gen now st)
              = moves st - 1 + (if int (length (selection st)) \<ge> 10 then 1 else 0)
                + (if breakout st then 2 else 0)"
    using assms(1) pf
    by (simp add: handlePointerUp_commit resolveMatch_def newMoves_def addedMoves_def
        isSuperBonus_def removalCount_def)
  have t2: "targets (handlePointerUp_levels gen st)
              = lowerTarget (targets st) k (int (length (selection st)))"
    and m2: "moves (handlePointerUp_levels gen st) = moves st - 1"
    using handlePointerUp_levels_commit[OF assms(1) b(1), of gen] b(2)
    by (simp_all add: resolveMatch_levels_def Let_def)
  have t3: "targets (handlePointerUp_basic gen st)
              = lowerTarget (targets st) k (int (length (selection st)))"
    and m3: "moves (handlePointerUp_basic gen st) = moves st - 1"
    using handlePointerUp_basic_commit[OF assms(1) b(1), of gen] b(2)
    by (simp_all add: resolveMatch_basic_def Let_def)
  show ?thesis
    unfolding Let_def t1 t2 t3 m1 m2 m3
    using lowerTarget_at[of "targets st" k v] assms(4) by (simp add: lowerTarget_other)
qed

theorem target_and_move_witness:
  "commits (dragging scenarioChain)
   \<and> plainChain (grid (dragging scenarioChain)) (selection (dragging scenarioChain)) yellow
   \<and> \<not> isWildcard yellow \<and> targets (dragging scenarioChain) yellow = Some 10
   \<and> targets (handlePointerUp sampleGen ''0'' (dragging scenarioChain)) yellow = Some 5
   \<and> targets (handlePointerUp sampleGen ''0'' (dragging scenarioChain)) red = Some 10
   \<and> moves (handlePointerUp sampleGen ''0'' (dragging scenarioChain)) = 19
   \<and> targets (handlePointerUp_levels sampleGen (dragging scenarioChain)) yellow = Some 5
   \<and> moves (handlePointerUp_levels sampleGen (dragging scenarioChain)) = 19
   \<and> targets (handlePointerUp_basic sampleGen (dragging scenarioChain)) yellow = Some 5
   \<and> moves (handlePointerUp_basic sampleGen (dragging scenarioChain)) = 19"
proof -
  have p: "commits (dragging scenarioChain)"
    by code_simp
  have q: "plainChain (grid (dragging scenarioChain)) (selection (dragging scenarioChain)) yellow"
    "\<not> isWildcard yellow" "targets (dragging scenarioChain) yellow = Some 10"
    by code_simp+
  have v: "length (selection (dragging scenarioChain)) = 5" "\<not> breakout (dragging scenarioChain)"
    "moves (dragging scenarioChain) = 20" "targets (dragging scenarioChain) red = Some 10"
    by code_simp+
  have r: "red \<noteq> yellow" by simp
  from target_and_move[OF p q, of sampleGen "''0''"] p q v r
  show ?thesis by (simp add: Let_def)
qed

subsection \<open>Win and loss\<close>

lemma phase_commit:
  assumes "commits st"
  shows "gameState (handlePointerUp gen now st)
           = (if allZero (targets (handlePointerUp gen now st)) then levelup
              else if newMoves st \<le> 0 then lost else playing)"
    and "moves (handlePointerUp gen now st) = newMoves st + (if breakout st then 2 else 0)"
  using assms
  by (simp_all add: handlePointerUp_commit resolveMatch_def isWon_def commits_def)

lemma phase_commit_levels:
  assumes "commits st"
  shows "gameState (handlePointerUp_levels gen st)
           = (if allZero (targets (handlePointerUp_levels gen st))
              then (if level st < 4 then levelup else won)
              else if moves (handlePointerUp_levels gen st) \<le> 0 then lost else playing)"
proof -
  from commits_first[OF assms] obtain b where
    "cellAt (grid st) (fst (selection st ! 0)) (snd (selection st ! 0)) = Some b" ..
  from handlePointerUp_levels_commit[OF assms this, of gen] assms
  show ?thesis by (simp add: resolveMatch_levels_def Let_def LEVELS_def commits_def)
qed

lemma phase_no_commit:
  "\<not> commits st \<Longrightarrow> gameState (handlePointerUp gen now st) = gameState st"
  using handlePointerUp_no_commit[of st gen now] by auto

lemma phase_no_commit_levels:
  "\<not> commits st \<Longrightarrow> gameState (handlePointerUp_levels gen st) = gameState st"
  by (auto simp: commits_def handlePointerUp_levels_def split: option.splits)

lemma lost_only_by_commit:
  "gameState (step st e) = lost \<Longrightarrow> gameState st \<noteq> lost \<Longrightarrow>
   \<exists>gen now. e = PointerUp gen now \<and> commits st"
proof (cases e)
  case (PointerUp gen now)
  assume "gameState (step st e) = lost" "gameState st \<noteq> lost"
  with PointerUp phase_no_commit[of st gen now] show ?thesis by auto
qed (auto simp: handlePointerDown_def handlePointerMove_def handleCellEnter_def
      startGame_def startNextLevel_def resetGame_def goToHome_def Let_def split: if_splits)

text \<open>
  Claim C3. After a commit the win test comes first: when the commit leaves every target
  at zero the phase is the win state (\<^verbatim>\<open>levelup\<close> in part\_001; \<^verbatim>\<open>levelup\<close> or \<^verbatim>\<open>won\<close> in
  \<^verbatim>\<open>src/App.tsx\<close>), also when it leaves no move; when a target is left and the commit
  leaves no move the phase is \<^verbatim>\<open>lost\<close>. No event but a committing pointer release
  turns the phase into \<^verbatim>\<open>lost\<close>.
\<close>

theorem win_before_loss:
  assumes "commits st"
  shows "(let st' = handlePointerUp gen now st in
            (allZero (targets st') \<longrightarrow> gameState st' = levelup)
          \<and> (\<not> allZero (targets st') \<and> moves st' \<le> 0 \<longrightarrow> gameState st' = lost))
       \<and> (let st' = handlePointerUp_levels gen st in
            (allZero (targets st') \<longrightarrow> gameState st' = winState_levels st)
          \<and> (\<not> allZero (targets st') \<and> moves st' \<le> 0 \<longrightarrow> gameState st' = lost))
       \<and> (\<forall>s e. gameState (step s e) = lost \<and> gameState s \<noteq> lost
             \<longrightarrow> (\<exists>gen' now'. e = PointerUp gen' now' \<and> commits s))
       \<and> (\<forall>s. \<not> commits s \<longrightarrow> gameState (handlePointerUp_levels gen s) = gameState s)"
proof -
  have "newMoves st \<le> 0" if "moves (handlePointerUp gen now st) \<le> 0"
    using that phase_commit(2)[OF assms, of gen now] by (simp split: if_splits)
  then show ?thesis
    using phase_commit(1)[OF assms, of gen now] phase_commit_levels[OF assms, of gen]
      lost_only_by_commit phase_no_commit_levels
    by (auto simp: Let_def winState_levels_def)
qed


theorem win_before_loss_witness:
  "commits lastMove \<and> commits lastMoveWin
   \<and> moves (handlePointerUp sampleGen ''0'' lastMove) = 0
   \<and> \<not> allZero (targets (handlePointerUp sampleGen ''0'' lastMove))
   \<and> gameState (handlePointerUp sampleGen ''0'' lastMove) = lost
   \<and> gameState (handlePointerUp_levels sampleGen lastMove) = lost
   \<and> moves (handlePointerUp sampleGen ''0'' lastMoveWin) = 0
   \<and> allZero (targets (handlePointerUp sampleGen ''0'' lastMoveWin))
   \<and> gameState (handlePointerUp sampleGen ''0'' lastMoveWin) = levelup
   \<and> gameState (handlePointerUp_levels sampleGen lastMoveWin) = levelup"
proof -
  have p: "commits lastMove" "commits lastMoveWin"
    by code_simp+
  have a: "moves (handlePointerUp sampleGen ''0'' lastMove) = 0"
    "\<not> allZero (targets (handlePointerUp sampleGen ''0'' lastMove))"
    "moves (handlePointerUp_levels sampleGen lastMove) = 0"
    "\<not> allZero (targets (handlePointerUp_levels sampleGen lastMove))"
    by code_simp+
  have b: "moves (handlePointerUp sampleGen ''0'' lastMoveWin) = 0"
    "allZero (targets (handlePointerUp sampleGen ''0'' lastMoveWin))"
    "allZero (targets (handlePointerUp_levels sampleGen lastMoveWin))"
    "winState_levels lastMoveWin = levelup"
    by code_simp+
  from win_before_loss[OF p(1), of sampleGen "''0''"]
    win_before_loss[OF p(2), of sampleGen "''0''"] p a b
  show ?thesis by (simp add: Let_def)
qed

subsection \<open>Reward tiles and the rainbow\<close>

lemma rowlens_clearBalls: "map length (clearBalls g fs) = map length g"
proof -
  have "map length (fold (\<lambda>s g'. setCell g' (fst s) (snd s) None) fs g) = map length g"
    by (induction fs arbitrary: g) (simp_all add: rowlens_setCell)
  then show ?thesis by (simp add: clearBalls_def)
qed

lemma cellAt_setCell_same:
  "r < length g \<Longrightarrow> c < length (g ! r) \<Longrightarrow> cellAt (setCell g r c v) r c = v"
  by (simp add: cellAt_def setCell_def)

lemma gridOK_inGrid:
  "gridOK g \<Longrightarrow> inGrid p \<Longrightarrow> fst p < length g \<and> snd p < length (g ! fst p)"
  by (simp add: gridOK_def inGrid_def list_all_iff)

lemma rowlens_rewardedGrid: "map length (rewardedGrid now st) = map length (grid st)"
  by (simp add: rewardedGrid_def Let_def rowlens_setCell rowlens_clearBalls)

lemma rewarded_rainbow:
  assumes "gridOK (grid st)" "inGrid (last (selection st))" "removalCount st \<ge> 10"
  shows "cellAt (rewardedGrid now st) (fst (last (selection st))) (snd (last (selection st)))
           = Some \<lparr>ballId = ''rainbow-'' @ now, color = rainbow, powerup = None\<rparr>"
proof -
  let ?h = "clearBalls (grid st) (finalSelection st)"
  have "gridOK ?h" using gridOK_cong[OF rowlens_clearBalls assms(1)] .
  from gridOK_inGrid[OF this assms(2)] assms(3) show ?thesis
    by (simp add: rewardedGrid_def Let_def isSuperBonus_def cellAt_setCell_same)
qed

lemma cell_in_column:
  "gridOK g \<Longrightarrow> inGrid p \<Longrightarrow> cellAt g (fst p) (snd p) = Some b
     \<Longrightarrow> Some b \<in> set (occupiedCells g (snd p))"
proof -
  assume ok: "gridOK g" and p: "inGrid p" and b: "cellAt g (fst p) (snd p) = Some b"
  from gridOK_inGrid[OF ok p] have r: "fst p < length g" and c: "snd p < length (g ! fst p)"
    by simp_all
  have "column g (snd p) ! fst p = Some b" using cellAt_column[OF r c] b by simp
  moreover have "fst p < length (column g (snd p))" using r by (simp add: length_column)
  ultimately have "Some b \<in> set (column g (snd p))" by (metis nth_mem)
  then show ?thesis by (simp add: occupiedCells_def)
qed

text \<open>
  Claim C8. A commit whose removal set has ten cells or more writes a \<^verbatim>\<open>rainbow\<close> tile at
  the last coordinate of the original selection, after the balls are cleared and before
  gravity runs (gravity keeps the tile in its column); the grid of the next state is
  \<^verbatim>\<open>applyGravity\<close> of that grid. A commit whose removal set holds a \<^verbatim>\<open>rainbow\<close> tile
  lowers every target of the level by the size of the removal set, not below 0.
\<close>

theorem rainbow_reward:
  assumes "commits st" "gridOK (grid st)" "inGrid (last (selection st))"
  shows "grid (handlePointerUp gen now st) = applyGravity gen (rewardedGrid now st)
       \<and> (removalCount st \<ge> 10 \<longrightarrow>
            cellAt (rewardedGrid now st) (fst (last (selection st))) (snd (last (selection st)))
              = Some \<lparr>ballId = ''rainbow-'' @ now, color = rainbow, powerup = None\<rparr>
          \<and> Some \<lparr>ballId = ''rainbow-'' @ now, color = rainbow, powerup = None\<rparr>
              \<in> set (column (grid (handlePointerUp gen now st)) (snd (last (selection st)))))
       \<and> (usedRainbow st \<longrightarrow>
            (\<forall>k. targets (handlePointerUp gen now st) k
                   = map_option (\<lambda>v. max 0 (v - removalCount st)) (targets st k)))"
proof -
  let ?p = "last (selection st)"
  let ?tile = "\<lparr>ballId = ''rainbow-'' @ now, color = rainbow, powerup = None\<rparr>"
  have g: "grid (handlePointerUp gen now st) = applyGravity gen (rewardedGrid now st)"
    using assms(1) by (simp add: handlePointerUp_commit resolveMatch_def)
  have ok: "gridOK (rewardedGrid now st)"
    using gridOK_cong[OF rowlens_rewardedGrid assms(2)] .
  have t: "usedRainbow st \<Longrightarrow>
            targets (handlePointerUp gen now st) k
              = map_option (\<lambda>v. max 0 (v - removalCount st)) (targets st k)" for k
    using assms(1) by (simp add: handlePointerUp_commit resolveMatch_def newTargets_def)
  have "Some ?tile \<in> set (column (grid (handlePointerUp gen now st)) (snd ?p))"
    if n: "removalCount st \<ge> 10"
  proof -
    have "snd ?p < COLS" using assms(3) by (simp add: inGrid_def)
    with gravity_refill[OF ok, of gen] have
      "column (applyGravity gen (rewardedGrid now st)) (snd ?p)
         = map (\<lambda>r. Some (newBall gen r (snd ?p))) [0..<emptyCount (rewardedGrid now st) (snd ?p)]
           @ occupiedCells (rewardedGrid now st) (snd ?p)" by simp
    moreover have "Some ?tile \<in> set (occupiedCells (rewardedGrid now st) (snd ?p))"
      using cell_in_column[OF ok assms(3) rewarded_rainbow[OF assms(2,3) n]] .
    ultimately show ?thesis by (simp add: g)
  qed
  with g t rewarded_rainbow[OF assms(2,3)] show ?thesis by blast
qed

theorem rainbow_reward_witness:
  "commits rainbowDrag \<and> gridOK (grid rainbowDrag) \<and> inGrid (last (selection rainbowDrag))
   \<and> removalCount rainbowDrag = 10 \<and> usedRainbow rainbowDrag
   \<and> last (selection rainbowDrag) = (2, 0)
   \<and> cellAt (rewardedGrid ''0'' rainbowDrag) 2 0
       = Some \<lparr>ballId = ''rainbow-0'', color = rainbow, powerup = None\<rparr>
   \<and> Some \<lparr>ballId = ''rainbow-0'', color = rainbow, powerup = None\<rparr>
       \<in> set (column (grid (handlePointerUp sampleGen ''0'' rainbowDrag)) 0)
   \<and> targets (handlePointerUp sampleGen ''0'' rainbowDrag) yellow = Some 0
   \<and> targets (handlePointerUp sampleGen ''0'' rainbowDrag) red = Some 0"
proof -
  have p: "commits rainbowDrag" "gridOK (grid rainbowDrag)"
    "inGrid (last (selection rainbowDrag))"
    by code_simp+
  have v: "removalCount rainbowDrag = 10" "usedRainbow rainbowDrag"
    "last (selection rainbowDrag) = (2, 0)"
    "targets rainbowDrag yellow = Some 10" "targets rainbowDrag red = Some 10"
    by code_simp+
  from rainbow_reward[OF p, of sampleGen "''0''"] p v
  show ?thesis by auto
qed

subsection \<open>Targets never rise\<close>

lemma neverRises_refl: "neverRises t t"
  unfolding neverRises_def by (rule exI[of _ 0]) simp

lemma neverRises_lowerTarget: "0 \<le> n \<Longrightarrow> neverRises t (lowerTarget t k n)"
  unfolding neverRises_def
  by (rule exI[of _ n]) (auto simp: lowerTarget_def split: option.splits)

lemma neverRises_all:
  "0 \<le> n \<Longrightarrow> neverRises t (\<lambda>k. map_option (\<lambda>v. max 0 (v - n)) (t k))"
  unfolding neverRises_def
  by (rule exI[of _ n]) (auto simp: map_option_case split: option.splits)

lemma removalCount_nonneg: "0 \<le> removalCount st"
  by (simp add: removalCount_def)

lemma neverRises_newTargets: "neverRises (targets st) (newTargets st)"
proof (cases "usedRainbow st")
  case True
  then show ?thesis
    using neverRises_all[OF removalCount_nonneg[of st], of "targets st"]
    by (simp add: newTargets_def)
next
  case False
  let ?d = "removalCount st * (if usedSpecial st then 2 else 1)"
  have d: "0 \<le> ?d" using removalCount_nonneg[of st] by simp
  have "newTargets st
          = (case chainColor st of
               None \<Rightarrow> targets st
             | Some k \<Rightarrow> lowerTarget (targets st) k ?d)"
    using False by (simp add: newTargets_def lowerTarget_def split: option.splits)
  then show ?thesis
    using neverRises_lowerTarget[OF d, of "targets st"]
    by (cases "chainColor st") (simp_all add: neverRises_refl)
qed

lemma targets_pointerUp:
  "targets (handlePointerUp gen now st) = targets st
   \<or> targets (handlePointerUp gen now st) = newTargets st"
proof (cases "commits st")
  case True
  then show ?thesis by (simp add: handlePointerUp_commit resolveMatch_def)
next
  case False
  from handlePointerUp_no_commit[OF this, of gen now] show ?thesis by auto
qed

lemma targets_pointerUp_levels:
  "targets (handlePointerUp_levels gen st) = targets st
   \<or> (\<exists>k. targets (handlePointerUp_levels gen st)
           = lowerTarget (targets st) k (int (length (selection st))))"
  by (auto simp: handlePointerUp_levels_def resolveMatch_levels_def Let_def split: option.splits)

lemma targets_pointerUp_basic:
  "targets (handlePointerUp_basic gen st) = targets st
   \<or> (\<exists>k. targets (handlePointerUp_basic gen st)
           = lowerTarget (targets st) k (int (length (selection st))))"
  by (auto simp: handlePointerUp_basic_def resolveMatch_basic_def Let_def split: option.splits)

lemma targets_pointerUp_reqs:
  "targets (handlePointerUp_reqs gen st) = targets st
   \<or> (\<exists>k. targets (handlePointerUp_reqs gen st)
           = lowerTarget (targets st) k (int (length (selection st))))"
  by (auto simp: handlePointerUp_reqs_def split: option.splits)

lemma neverRises_bounds:
  assumes "neverRises t t'" "\<forall>k v. t k = Some v \<longrightarrow> 0 \<le> v" "t' k = Some v'"
  shows "0 \<le> v' \<and> (\<exists>v. t k = Some v \<and> v' \<le> v)"
proof -
  from assms(1) obtain d where d: "0 \<le> d"
    and c: "\<And>k. t' k = t k \<or> (\<exists>v. t k = Some v \<and> t' k = Some (max 0 (v - d)))"
    unfolding neverRises_def by blast
  from c[of k] show ?thesis
  proof
    assume "t' k = t k"
    then have "t k = Some v'" using assms(3) by simp
    with assms(2) show ?thesis by simp
  next
    assume "\<exists>v. t k = Some v \<and> t' k = Some (max 0 (v - d))"
    then obtain v where v: "t k = Some v" "t' k = Some (max 0 (v - d))" by blast
    with assms(2) have "0 \<le> v" by simp
    with v assms(3) d show ?thesis by auto
  qed
qed

text \<open>
  Claim C9. A pointer release, in every revision, keeps each target or lowers it from
  \<open>v\<close> to \<open>max 0 (v - d)\<close> for one \<open>d \<ge> 0\<close>; pressing a cell, moving over cells and
  starting the game leave the targets alone. So targets that are not negative stay so
  and never rise; only the handlers that start or reset a level write new targets.
\<close>

theorem targets_never_rise:
  "neverRises (targets st) (targets (handlePointerUp gen now st))
   \<and> neverRises (targets st) (targets (handlePointerUp_levels gen st))
   \<and> neverRises (targets st) (targets (handlePointerUp_basic gen st))
   \<and> neverRises (targets st) (targets (handlePointerUp_reqs gen st))
   \<and> targets (handlePointerDown st r c) = targets st
   \<and> targets (handlePointerMove st r c) = targets st
   \<and> targets (handleCellEnter_levels st r c) = targets st
   \<and> targets (startGame st) = targets st
   \<and> (\<forall>t t'. neverRises t t' \<and> (\<forall>k v. t k = Some v \<longrightarrow> 0 \<le> v)
        \<longrightarrow> (\<forall>k v'. t' k = Some v' \<longrightarrow> 0 \<le> v' \<and> (\<exists>v. t k = Some v \<and> v' \<le> v)))"
proof -
  have a: "neverRises (targets st) (targets (handlePointerUp gen now st))"
    using targets_pointerUp[of gen now st] neverRises_newTargets[of st]
    by (auto simp: neverRises_refl)
  have n: "0 \<le> int (length (selection st))" by simp
  have b: "neverRises (targets st) (targets (handlePointerUp_levels gen st))"
    using targets_pointerUp_levels[of gen st] neverRises_lowerTarget[OF n]
    by (auto simp: neverRises_refl)
  have c: "neverRises (targets st) (targets (handlePointerUp_basic gen st))"
    using targets_pointerUp_basic[of gen st] neverRises_lowerTarget[OF n]
    by (auto simp: neverRises_refl)
  have d: "neverRises (targets st) (targets (handlePointerUp_reqs gen st))"
    using targets_pointerUp_reqs[of gen st] neverRises_lowerTarget[OF n]
    by (auto simp: neverRises_refl)
  have e: "targets (handlePointerDown st r c) = targets st"
    "targets (handlePointerMove st r c) = targets st"
    "targets (handleCellEnter_levels st r c) = targets st"
    "targets (startGame st) = targets st"
    by (simp_all add: handlePointerDown_def handlePointerMove_def handleCellEnter_def
        handleCellEnter_levels_def startGame_def)
  from a b c d e neverRises_bounds show ?thesis by blast
qed

theorem targets_never_rise_witness:
  "neverRises (targets (dragging scenarioChain))
     (targets (handlePointerUp sampleGen ''0'' (dragging scenarioChain)))
   \<and> targets (dragging scenarioChain) yellow = Some 10
   \<and> targets (handlePointerUp sampleGen ''0'' (dragging scenarioChain)) yellow = Some 5
   \<and> (0::int) \<le> 5 \<and> (5::int) \<le> 10"
proof -
  have v: "targets (dragging scenarioChain) yellow = Some 10"
    "targets (handlePointerUp sampleGen ''0'' (dragging scenarioChain)) yellow = Some 5"
    by code_simp+
  have nn: "\<forall>k v. targets (dragging scenarioChain) k = Some v \<longrightarrow> 0 \<le> v"
    by (auto simp: dragging_def scenarioState_def split: if_splits)
  from targets_never_rise[of "dragging scenarioChain" sampleGen "''0''" 0 0] v nn
  show ?thesis by simp
qed

subsection \<open>The penalty of an abandoned chain\<close>

lemma penalty_branch:
  assumes "comboMeter (handlePointerUp gen now st) \<noteq> comboMeter st \<or>
           combo (handlePointerUp gen now st) \<noteq> combo st"
  shows "commits st \<or>
         (isDragging st \<and> length (selection st) \<ge> MIN_MATCH \<and> gameState st = playing
          \<and> cellAt (grid st) (fst (selection st ! 0)) (snd (selection st ! 0)) = None)"
  using assms
  by (auto simp: handlePointerUp_def commits_def split: option.splits if_splits)

text \<open>
  Claim C7 at a chain of two cells: the release clears the selection and leaves the
  streak at 3 and the meter at 40. The branch that resets the streak and takes 15 off
  the meter is reached only from a chain of \<open>MIN_MATCH\<close> cells or more whose first cell
  is empty.
\<close>

theorem short_release_keeps_combo:
  "isDragging shortDrag \<and> gameState shortDrag = playing \<and> selection shortDrag = [(0, 1), (0, 2)]
   \<and> combo shortDrag = 3 \<and> comboMeter shortDrag = 40
   \<and> selection (handlePointerUp sampleGen ''0'' shortDrag) = []
   \<and> combo (handlePointerUp sampleGen ''0'' shortDrag) = 3
   \<and> comboMeter (handlePointerUp sampleGen ''0'' shortDrag) = 40"
  by code_simp

end
